theory Spec2Isabelle
  imports Complex_Main
begin

section \<open>The tank configuration (storage1d.py, class TankConfig)\<close>

text \<open>
  The dataclass \<^verbatim>\<open>TankConfig\<close>. Python's unbounded \<^verbatim>\<open>int\<close> fields are \<open>int\<close>;
  the \<^verbatim>\<open>float\<close> fields are idealised as \<open>real\<close>, so the statements about the model
  are statements of exact arithmetic (no rounding, no NaN, no infinities). The arithmetic
  the source really performs is modelled apart, by the step with binary64 rounding
  (\<open>step_rnd b64\<close>), which shows where the two differ.
\<close>

record TankConfig =
  n_nodes :: int
  height :: real
  volume :: real
  rho :: real
  cp :: real
  ua_loss :: real
  k_cond :: real
  dt :: real
  n_steps :: int
  charge_inlet :: int
  discharge_outlet :: int

text \<open>
  Every failure of the source is a \<^verbatim>\<open>ValueError\<close>; the two constructors tell the raise
  sites apart: \<open>InvalidConfiguration\<close> for the raises inside \<^verbatim>\<open>TankConfig.validate\<close>,
  \<open>DimensionMismatch\<close> for the raises of \<^verbatim>\<open>_check_len\<close> and of the shape test on
  \<^verbatim>\<open>T_init\<close> in \<^verbatim>\<open>simulate_stratified_tank\<close>.
\<close>

datatype error = InvalidConfiguration | DimensionMismatch

text \<open>
  \<^verbatim>\<open>validate\<close> mutates \<^verbatim>\<open>self\<close> and may raise. The model passes the state explicitly:
  it returns the raised error, if any, together with the configuration as the call leaves it.
\<close>

definition validate :: "TankConfig \<Rightarrow> error option \<times> TankConfig" where
  "validate self =
    (if n_nodes self < 2 then (Some InvalidConfiguration, self)
     else if height self \<le> 0 then (Some InvalidConfiguration, self)
     else if volume self \<le> 0 then (Some InvalidConfiguration, self)
     else if rho self \<le> 0 \<or> cp self \<le> 0 then (Some InvalidConfiguration, self)
     else if dt self \<le> 0 then (Some InvalidConfiguration, self)
     else if n_steps self < 1 then (Some InvalidConfiguration, self)
     else if \<not> (0 \<le> charge_inlet self \<and> charge_inlet self < n_nodes self)
       then (Some InvalidConfiguration, self)
     else
       let self' = (if discharge_outlet self = - 1
                    then self\<lparr>discharge_outlet := n_nodes self - 1\<rparr> else self)
       in if \<not> (0 \<le> discharge_outlet self' \<and> discharge_outlet self' < n_nodes self')
          then (Some InvalidConfiguration, self')
          else (None, self'))"

section \<open>Small utilities\<close>

text \<open>
  \<^verbatim>\<open>_check_len\<close> returns the error it raises, if any. \<^verbatim>\<open>_as_scalar\<close> and
  \<^verbatim>\<open>_ensure_1d\<close> convert between numpy scalars, arrays and floats; on reals and lists
  of reals they are the identity and do not appear in the model.
\<close>

definition check_len :: "'a list \<Rightarrow> int \<Rightarrow> error option" where
  "check_len arr n = (if int (length arr) \<noteq> n then Some DimensionMismatch else None)"

section \<open>Geometry, computed once per run\<close>

definition dz :: "TankConfig \<Rightarrow> real" where
  "dz cfg = height cfg / real_of_int (n_nodes cfg)"

definition area_cross :: "TankConfig \<Rightarrow> real" where
  "area_cross cfg = volume cfg / height cfg"

definition vol_node :: "TankConfig \<Rightarrow> real" where
  "vol_node cfg = area_cross cfg * dz cfg"

definition mass_node :: "TankConfig \<Rightarrow> real" where
  "mass_node cfg = rho cfg * vol_node cfg"

definition ua_node :: "TankConfig \<Rightarrow> real" where
  "ua_node cfg = (if ua_loss cfg > 0 then ua_loss cfg / real_of_int (n_nodes cfg) else 0)"

definition G_cond :: "TankConfig \<Rightarrow> real" where
  "G_cond cfg = (if k_cond cfg > 0 then k_cond cfg * area_cross cfg / dz cfg else 0)"

section \<open>The three phases of one time step\<close>

text \<open>
  A row of the temperature field is a \<open>real list\<close> of length \<open>n_nodes\<close>. The phases
  are only ever run after \<open>validate\<close> and the shape test on \<^verbatim>\<open>T_init\<close>; then the port
  indices and every index the loops below produce lie inside the row (lemma
  \<open>indices_in_range\<close>), so no read or write of the source raises \<^verbatim>\<open>IndexError\<close> or
  wraps around, and the row length never changes (lemma \<open>length_step\<close>).
\<close>

subsection \<open>1) Side losses\<close>

definition side_loss :: "TankConfig \<Rightarrow> real \<Rightarrow> real list \<Rightarrow> real list" where
  "side_loss cfg Tamb Tn =
     map (\<lambda>x. x - (ua_node cfg * (x - Tamb) * dt cfg) / (mass_node cfg * cp cfg)) Tn"

definition loss_power :: "TankConfig \<Rightarrow> real \<Rightarrow> real list \<Rightarrow> real" where
  "loss_power cfg Tamb row = sum_list (map (\<lambda>x. ua_node cfg * (x - Tamb)) row)"

subsection \<open>2) Axial conduction\<close>

text \<open>
  \<^verbatim>\<open>dT_cond\<close> starts as zeros; entry 0, the slice \<^verbatim>\<open>[1:-1]\<close> and entry \<^verbatim>\<open>-1\<close> are then
  assigned in this order. The slices \<^verbatim>\<open>Tn[0:-2]\<close>, \<^verbatim>\<open>Tn[1:-1]\<close>, \<^verbatim>\<open>Tn[2:]\<close> are
  \<open>take (n - 2)\<close>, \<open>drop 1 \<circ> take (n - 1)\<close> and \<open>drop 2\<close>.
\<close>

definition dT_cond :: "TankConfig \<Rightarrow> real list \<Rightarrow> real list" where
  "dT_cond cfg Tn =
     (let n = length Tn;
          d0 = replicate n 0;
          d1 = d0[0 := (G_cond cfg * (Tn ! 1 - Tn ! 0) * dt cfg) / (mass_node cfg * cp cfg)];
          interior = map (\<lambda>(lo, mid, up).
                        (G_cond cfg * ((lo - mid) + (up - mid)) * dt cfg) / (mass_node cfg * cp cfg))
                      (zip (take (n - 2) Tn) (zip (drop 1 (take (n - 1) Tn)) (drop 2 Tn)));
          d2 = take 1 d1 @ interior @ drop (n - 1) d1
      in d2[n - 1 := (G_cond cfg * (Tn ! (n - 2) - Tn ! (n - 1)) * dt cfg) / (mass_node cfg * cp cfg)])"

definition conduction :: "TankConfig \<Rightarrow> real list \<Rightarrow> real list" where
  "conduction cfg Tn = map (\<lambda>(x, d). x + d) (zip Tn (dT_cond cfg Tn))"

subsection \<open>3) Charging and discharging\<close>

definition charge :: "TankConfig \<Rightarrow> real \<Rightarrow> real \<Rightarrow> real list \<Rightarrow> real list" where
  "charge cfg mf Tin Tn =
     (let i_in = nat (charge_inlet cfg);
          alpha = (mf * dt cfg) / (mass_node cfg + mf * dt cfg);
          Tn1 = Tn[i_in := (1 - alpha) * Tn ! i_in + alpha * Tin]
      in if charge_inlet cfg < n_nodes cfg - 1
         then let frac = min 1 ((mf * dt cfg) / mass_node cfg)
              in fold (\<lambda>i Tn. Tn[i + 1 := (1 - frac) * Tn ! (i + 1) + frac * Tn ! i])
                      [i_in ..< nat (n_nodes cfg - 1)] Tn1
         else Tn1)"

text \<open>
  \<^verbatim>\<open>range(i_out - 1, 0, -1)\<close> runs through \<open>i_out - 1, ..., 1\<close>, that is
  \<open>rev [1..<i_out]\<close>; \<^verbatim>\<open>range(0, n_nodes - 2)\<close> is \<open>[0..<n_nodes - 2]\<close>.
\<close>

definition discharge :: "TankConfig \<Rightarrow> real \<Rightarrow> real list \<Rightarrow> real list" where
  "discharge cfg mf Tn =
     (let i_out = nat (discharge_outlet cfg);
          m_out = \<bar>mf\<bar>;
          frac = min 1 ((m_out * dt cfg) / mass_node cfg)
      in if discharge_outlet cfg > 0
         then fold (\<lambda>i Tn. Tn[i := (1 - frac) * Tn ! i + frac * Tn ! (i - 1)])
                   (rev [1 ..< i_out])
                   (Tn[i_out := (1 - frac) * Tn ! i_out + frac * Tn ! (i_out - 1)])
         else if n_nodes cfg > 1
         then fold (\<lambda>i Tn. Tn[i := (1 - frac) * Tn ! i + frac * Tn ! (i + 1)])
                   [0 ..< nat (n_nodes cfg - 2)]
                   (Tn[i_out := (1 - frac) * Tn ! i_out + frac * Tn ! (i_out + 1)])
         else Tn)"

definition advect :: "TankConfig \<Rightarrow> real \<Rightarrow> real \<Rightarrow> real list \<Rightarrow> real list" where
  "advect cfg mf Tin Tn =
     (if mf > 0 then charge cfg mf Tin Tn
      else if mf < 0 then discharge cfg mf Tn
      else Tn)"

section \<open>Time marching (storage1d.py, simulate\_stratified\_tank)\<close>

text \<open>The body of \<^verbatim>\<open>for t in range(n)\<close> up to the store into row \<open>t + 1\<close>.\<close>

definition step :: "TankConfig \<Rightarrow> real \<Rightarrow> real \<Rightarrow> real \<Rightarrow> real list \<Rightarrow> real list" where
  "step cfg Tin mf Tamb row =
     (let Tn = row;
          Tn = (if ua_node cfg > 0 then side_loss cfg Tamb Tn else Tn);
          Tn = (if G_cond cfg > 0 then conduction cfg Tn else Tn)
      in advect cfg mf Tin Tn)"

text \<open>
  The loop state is the pair of the arrays \<^verbatim>\<open>T\<close> and \<^verbatim>\<open>Q_loss\<close>. \<^verbatim>\<open>T\<close> is allocated
  with \<^verbatim>\<open>np.empty\<close> (contents unspecified, modelled as zeros; every row is overwritten
  before the function returns), \<^verbatim>\<open>Q_loss\<close> with \<^verbatim>\<open>np.zeros\<close>.
\<close>

definition march_body ::
  "TankConfig \<Rightarrow> real list \<Rightarrow> real list \<Rightarrow> real list \<Rightarrow> nat
     \<Rightarrow> real list list \<times> real list \<Rightarrow> real list list \<times> real list" where
  "march_body cfg Tin_charge m_flow T_amb t = (\<lambda>(T, Q).
     (T[t + 1 := step cfg (Tin_charge ! t) (m_flow ! t) (T_amb ! t) (T ! t)],
      if ua_node cfg > 0 then Q[t := loss_power cfg (T_amb ! t) (T ! t)] else Q))"

definition time_march ::
  "TankConfig \<Rightarrow> real list \<Rightarrow> real list \<Rightarrow> real list \<Rightarrow> real list
     \<Rightarrow> real list list \<times> real list" where
  "time_march cfg Tin_charge m_flow T_amb T_init =
     (let n = nat (n_steps cfg)
      in fold (march_body cfg Tin_charge m_flow T_amb) [0 ..< n]
           ((replicate (n + 1) (replicate (nat (n_nodes cfg)) 0))[0 := T_init],
            replicate n 0))"

text \<open>
  The returned dictionary without \<^verbatim>\<open>exec_time_s\<close> (wall-clock time is outside the model).
  \<open>T_hist\<close> is the entry \<^verbatim>\<open>'T'\<close>.
\<close>

record SimResult =
  T_hist :: "real list list"
  T_top :: "real list"
  T_bot :: "real list"
  Q_loss :: "real list"

text \<open>
  The inputs are lists, so \<^verbatim>\<open>_ensure_1d\<close> cannot fail, and \<^verbatim>\<open>T_init.shape != (n_nodes,)\<close>
  is a test of the length.
\<close>

definition simulate_stratified_tank ::
  "TankConfig \<Rightarrow> real list \<Rightarrow> real list \<Rightarrow> real list \<Rightarrow> real list \<Rightarrow> error + SimResult" where
  "simulate_stratified_tank cfg0 Tin_charge m_flow T_amb T_init =
     (case validate cfg0 of
        (Some e, _) \<Rightarrow> Inl e
      | (None, cfg) \<Rightarrow>
         let n = n_steps cfg in
         (case check_len Tin_charge n of Some e \<Rightarrow> Inl e | None \<Rightarrow>
         (case check_len m_flow n of Some e \<Rightarrow> Inl e | None \<Rightarrow>
         (case check_len T_amb n of Some e \<Rightarrow> Inl e | None \<Rightarrow>
          if int (length T_init) \<noteq> n_nodes cfg then Inl DimensionMismatch
          else
            (let (T, Q) = time_march cfg Tin_charge m_flow T_amb T_init
             in Inr \<lparr>T_hist = T,
                     T_top = map (\<lambda>row. row ! nat (n_nodes cfg - 1)) T,
                     T_bot = map (\<lambda>row. row ! 0) T,
                     Q_loss = Q\<rparr>)))))"

section \<open>The loop, step by step\<close>

text \<open>
  Two auxiliary functions for reasoning about the loop: \<open>march_upto\<close> is the loop state
  after the first \<open>k\<close> iterations, and \<open>row_at\<close> is row \<open>t\<close> of the field written as a
  recursion on \<open>t\<close>. Lemma \<open>march_upto_inv\<close> relates the two.
\<close>

definition march_upto ::
  "TankConfig \<Rightarrow> real list \<Rightarrow> real list \<Rightarrow> real list \<Rightarrow> real list \<Rightarrow> nat
     \<Rightarrow> real list list \<times> real list" where
  "march_upto c Tin mf Ta T0 k =
     fold (march_body c Tin mf Ta) [0 ..< k]
           ((replicate (nat (n_steps c) + 1) (replicate (nat (n_nodes c)) 0))[0 := T0],
            replicate (nat (n_steps c)) 0)"

fun row_at ::
  "TankConfig \<Rightarrow> real list \<Rightarrow> real list \<Rightarrow> real list \<Rightarrow> real list \<Rightarrow> nat \<Rightarrow> real list" where
  "row_at c Tin mf Ta T0 0 = T0"
| "row_at c Tin mf Ta T0 (Suc t) = step c (Tin ! t) (mf ! t) (Ta ! t) (row_at c Tin mf Ta T0 t)"

section \<open>Auxiliary predicates and sample inputs\<close>

text \<open>The four dimension tests of \<^verbatim>\<open>simulate_stratified_tank\<close>, taken together.\<close>

definition lens_ok :: "TankConfig \<Rightarrow> real list \<Rightarrow> real list \<Rightarrow> real list \<Rightarrow> real list \<Rightarrow> bool" where
  "lens_ok c Tin mf Ta T0 \<longleftrightarrow> int (length Tin) = n_steps c \<and> int (length mf) = n_steps c
      \<and> int (length Ta) = n_steps c \<and> int (length T0) = n_nodes c"

text \<open>
  A small tank used to run the model on concrete data: unit geometry and unit fluid
  properties, so that \<open>mass_node = 1 / n_nodes\<close>.
\<close>

definition unit_tank :: "int \<Rightarrow> int \<Rightarrow> real \<Rightarrow> real \<Rightarrow> int \<Rightarrow> int \<Rightarrow> TankConfig" where
  "unit_tank nn ns ua k i_in i_out =
     \<lparr>n_nodes = nn, height = 1, volume = 1, rho = 1, cp = 1, ua_loss = ua, k_cond = k,
      dt = 1, n_steps = ns, charge_inlet = i_in, discharge_outlet = i_out\<rparr>"

text \<open>
  The outlet index after the sentinel \<open>- 1\<close> has been replaced, and the disjunction of
  the tests under which \<open>validate\<close> raises, in the order of the source.
\<close>

definition normalized_outlet :: "TankConfig \<Rightarrow> int" where
  "normalized_outlet c = (if discharge_outlet c = - 1 then n_nodes c - 1 else discharge_outlet c)"

definition config_bad :: "TankConfig \<Rightarrow> bool" where
  "config_bad c \<longleftrightarrow> n_nodes c < 2 \<or> height c \<le> 0 \<or> volume c \<le> 0 \<or> rho c \<le> 0 \<or> cp c \<le> 0
     \<or> dt c \<le> 0 \<or> n_steps c < 1 \<or> \<not> (0 \<le> charge_inlet c \<and> charge_inlet c < n_nodes c)
     \<or> \<not> (0 \<le> normalized_outlet c \<and> normalized_outlet c < n_nodes c)"

text \<open>The configuration with a negative loss or conduction coefficient replaced by 0.\<close>

definition nonneg_coeffs :: "TankConfig \<Rightarrow> TankConfig" where
  "nonneg_coeffs c = c\<lparr>ua_loss := max 0 (ua_loss c), k_cond := max 0 (k_cond c)\<rparr>"

text \<open>Every entry of a row lies in the interval \<open>[lo, hi]\<close>.\<close>

definition all_between :: "real \<Rightarrow> real \<Rightarrow> real list \<Rightarrow> bool" where
  "all_between lo hi xs \<longleftrightarrow> (\<forall>x \<in> set xs. lo \<le> x \<and> x \<le> hi)"

text \<open>
  The bottom-outlet discharge as the specification words it: the propagation
  \<open>T[i] \<leftarrow> (1 - frac) * T[i] + frac * T[i + 1]\<close> for \<open>i\<close> from 0 to \<open>n_nodes - 3\<close>
  and nothing else. It is compared with \<open>discharge\<close>, the translation of the source.
\<close>

definition discharge_bottom_spec :: "TankConfig \<Rightarrow> real \<Rightarrow> real list \<Rightarrow> real list" where
  "discharge_bottom_spec cfg mf Tn =
     (let frac = min 1 ((\<bar>mf\<bar> * dt cfg) / mass_node cfg)
      in fold (\<lambda>i Tn. Tn[i := (1 - frac) * Tn ! i + frac * Tn ! (i + 1)])
              [0 ..< nat (n_nodes cfg - 2)] Tn)"

text \<open>
  The two numbers that decide the stability of the explicit scheme: the fraction of the
  temperature difference to the ambient that one loss update removes, and the fraction of
  the difference to a neighbour that one conduction update moves.
\<close>

definition loss_factor :: "TankConfig \<Rightarrow> real" where
  "loss_factor c = ua_node c * dt c / (mass_node c * cp c)"

definition cond_factor :: "TankConfig \<Rightarrow> real" where
  "cond_factor c = G_cond c * dt c / (mass_node c * cp c)"

section \<open>The step in rounded arithmetic\<close>

text \<open>
  The source computes in IEEE binary64. \<open>b64\<close> rounds a real to the nearest binary64
  number, ties to the even significand: \<open>norm_exp\<close> finds the binary exponent of \<open>|x|\<close>
  (the fuel 2200 covers the whole exponent range), the quantum is \<open>2 ^ (exponent - 52)\<close>,
  not below \<open>2 ^ - 1074\<close> (subnormal numbers), and \<open>round_even\<close> rounds the quotient to
  an integer. Overflow to infinity is outside the model (nothing below comes near
  \<open>2 ^ 1024\<close>).
\<close>

fun norm_exp :: "nat \<Rightarrow> real \<Rightarrow> int \<Rightarrow> int" where
  "norm_exp 0 y e = e"
| "norm_exp (Suc n) y e =
     (if 2 \<le> y then norm_exp n (y / 2) (e + 1)
      else if y < 1 then norm_exp n (2 * y) (e - 1)
      else e)"

definition round_even :: "real \<Rightarrow> int" where
  "round_even y =
     (let f = \<lfloor>y\<rfloor>; r = y - of_int f
      in if r < 1 / 2 then f else if 1 / 2 < r then f + 1 else if even f then f else f + 1)"

definition pow2 :: "int \<Rightarrow> real" where
  "pow2 e = (if 0 \<le> e then 2 ^ nat e else 1 / 2 ^ nat (- e))"

definition b64 :: "real \<Rightarrow> real" where
  "b64 x =
     (if x = 0 then 0
      else let e = max (norm_exp 2200 \<bar>x\<bar> 0 - 52) (- 1074);
               q = pow2 e
           in q * of_int (round_even (x / q)))"

text \<open>
  The geometry and the body of the time loop once more, with a rounding function \<open>rnd\<close>
  applied to the result of every arithmetic operation, in the order in which Python and
  numpy evaluate the expressions of the source. With \<open>rnd = b64\<close> this is the arithmetic
  the source performs on binary64 inputs; with the identity it is the model above
  (lemma \<open>step_rnd_exact\<close>). The loss series is not repeated here.
\<close>

definition dz_rnd :: "(real \<Rightarrow> real) \<Rightarrow> TankConfig \<Rightarrow> real" where
  "dz_rnd rnd cfg = rnd (height cfg / real_of_int (n_nodes cfg))"

definition area_cross_rnd :: "(real \<Rightarrow> real) \<Rightarrow> TankConfig \<Rightarrow> real" where
  "area_cross_rnd rnd cfg = rnd (volume cfg / height cfg)"

definition vol_node_rnd :: "(real \<Rightarrow> real) \<Rightarrow> TankConfig \<Rightarrow> real" where
  "vol_node_rnd rnd cfg = rnd (area_cross_rnd rnd cfg * dz_rnd rnd cfg)"

definition mass_node_rnd :: "(real \<Rightarrow> real) \<Rightarrow> TankConfig \<Rightarrow> real" where
  "mass_node_rnd rnd cfg = rnd (rho cfg * vol_node_rnd rnd cfg)"

definition ua_node_rnd :: "(real \<Rightarrow> real) \<Rightarrow> TankConfig \<Rightarrow> real" where
  "ua_node_rnd rnd cfg =
     (if ua_loss cfg > 0 then rnd (ua_loss cfg / real_of_int (n_nodes cfg)) else 0)"

definition G_cond_rnd :: "(real \<Rightarrow> real) \<Rightarrow> TankConfig \<Rightarrow> real" where
  "G_cond_rnd rnd cfg =
     (if k_cond cfg > 0 then rnd (rnd (k_cond cfg * area_cross_rnd rnd cfg) / dz_rnd rnd cfg) else 0)"

definition side_loss_rnd :: "(real \<Rightarrow> real) \<Rightarrow> TankConfig \<Rightarrow> real \<Rightarrow> real list \<Rightarrow> real list" where
  "side_loss_rnd rnd cfg Tamb Tn =
     map (\<lambda>x. rnd (x - rnd (rnd (rnd (ua_node_rnd rnd cfg * rnd (x - Tamb)) * dt cfg)
                            / rnd (mass_node_rnd rnd cfg * cp cfg)))) Tn"

definition dT_cond_rnd :: "(real \<Rightarrow> real) \<Rightarrow> TankConfig \<Rightarrow> real list \<Rightarrow> real list" where
  "dT_cond_rnd rnd cfg Tn =
     (let n = length Tn;
          d0 = replicate n 0;
          d1 = d0[0 := rnd (rnd (rnd (G_cond_rnd rnd cfg * rnd (Tn ! 1 - Tn ! 0)) * dt cfg)
                            / rnd (mass_node_rnd rnd cfg * cp cfg))];
          interior = map (\<lambda>(lo, mid, up).
                        rnd (rnd (rnd (G_cond_rnd rnd cfg * rnd (rnd (lo - mid) + rnd (up - mid))) * dt cfg)
                             / rnd (mass_node_rnd rnd cfg * cp cfg)))
                      (zip (take (n - 2) Tn) (zip (drop 1 (take (n - 1) Tn)) (drop 2 Tn)));
          d2 = take 1 d1 @ interior @ drop (n - 1) d1
      in d2[n - 1 := rnd (rnd (rnd (G_cond_rnd rnd cfg * rnd (Tn ! (n - 2) - Tn ! (n - 1))) * dt cfg)
                          / rnd (mass_node_rnd rnd cfg * cp cfg))])"

definition conduction_rnd :: "(real \<Rightarrow> real) \<Rightarrow> TankConfig \<Rightarrow> real list \<Rightarrow> real list" where
  "conduction_rnd rnd cfg Tn = map (\<lambda>(x, d). rnd (x + d)) (zip Tn (dT_cond_rnd rnd cfg Tn))"

definition charge_rnd :: "(real \<Rightarrow> real) \<Rightarrow> TankConfig \<Rightarrow> real \<Rightarrow> real \<Rightarrow> real list \<Rightarrow> real list" where
  "charge_rnd rnd cfg mf Tin Tn =
     (let i_in = nat (charge_inlet cfg);
          alpha = rnd (rnd (mf * dt cfg) / rnd (mass_node_rnd rnd cfg + rnd (mf * dt cfg)));
          Tn1 = Tn[i_in := rnd (rnd (rnd (1 - alpha) * Tn ! i_in) + rnd (alpha * Tin))]
      in if charge_inlet cfg < n_nodes cfg - 1
         then let frac = min 1 (rnd (rnd (mf * dt cfg) / mass_node_rnd rnd cfg))
              in fold (\<lambda>i Tn. Tn[i + 1 := rnd (rnd (rnd (1 - frac) * Tn ! (i + 1)) + rnd (frac * Tn ! i))])
                      [i_in ..< nat (n_nodes cfg - 1)] Tn1
         else Tn1)"

definition discharge_rnd :: "(real \<Rightarrow> real) \<Rightarrow> TankConfig \<Rightarrow> real \<Rightarrow> real list \<Rightarrow> real list" where
  "discharge_rnd rnd cfg mf Tn =
     (let i_out = nat (discharge_outlet cfg);
          m_out = \<bar>mf\<bar>;
          frac = min 1 (rnd (rnd (m_out * dt cfg) / mass_node_rnd rnd cfg))
      in if discharge_outlet cfg > 0
         then fold (\<lambda>i Tn. Tn[i := rnd (rnd (rnd (1 - frac) * Tn ! i) + rnd (frac * Tn ! (i - 1)))])
                   (rev [1 ..< i_out])
                   (Tn[i_out := rnd (rnd (rnd (1 - frac) * Tn ! i_out) + rnd (frac * Tn ! (i_out - 1)))])
         else if n_nodes cfg > 1
         then fold (\<lambda>i Tn. Tn[i := rnd (rnd (rnd (1 - frac) * Tn ! i) + rnd (frac * Tn ! (i + 1)))])
                   [0 ..< nat (n_nodes cfg - 2)]
                   (Tn[i_out := rnd (rnd (rnd (1 - frac) * Tn ! i_out) + rnd (frac * Tn ! (i_out + 1)))])
         else Tn)"

definition advect_rnd :: "(real \<Rightarrow> real) \<Rightarrow> TankConfig \<Rightarrow> real \<Rightarrow> real \<Rightarrow> real list \<Rightarrow> real list" where
  "advect_rnd rnd cfg mf Tin Tn =
     (if mf > 0 then charge_rnd rnd cfg mf Tin Tn
      else if mf < 0 then discharge_rnd rnd cfg mf Tn
      else Tn)"

definition step_rnd :: "(real \<Rightarrow> real) \<Rightarrow> TankConfig \<Rightarrow> real \<Rightarrow> real \<Rightarrow> real \<Rightarrow> real list \<Rightarrow> real list" where
  "step_rnd rnd cfg Tin mf Tamb row =
     (let Tn = row;
          Tn = (if ua_node_rnd rnd cfg > 0 then side_loss_rnd rnd cfg Tamb Tn else Tn);
          Tn = (if G_cond_rnd rnd cfg > 0 then conduction_rnd rnd cfg Tn else Tn)
      in advect_rnd rnd cfg mf Tin Tn)"

section \<open>Row lengths\<close>

lemma length_side_loss: "length (side_loss c a xs) = length xs"
  by (simp add: side_loss_def)

lemma length_dT_cond: "2 \<le> length xs \<Longrightarrow> length (dT_cond c xs) = length xs"
  by (simp add: dT_cond_def Let_def)

lemma length_conduction: "2 \<le> length xs \<Longrightarrow> length (conduction c xs) = length xs"
  by (simp add: conduction_def length_dT_cond)

lemma length_fold_update:
  "length (fold (\<lambda>i xs. xs[g i := h i xs]) is xs) = length xs"
  by (induction "is" arbitrary: xs) simp_all

lemma length_charge: "length (charge c mf a xs) = length xs"
  by (simp add: charge_def Let_def length_fold_update)

lemma length_discharge: "length (discharge c mf xs) = length xs"
  by (simp add: discharge_def Let_def length_fold_update)

lemma length_advect: "length (advect c mf a xs) = length xs"
  by (simp add: advect_def length_charge length_discharge)

lemma length_step: "2 \<le> length row \<Longrightarrow> length (step c a mf b row) = length row"
  by (simp add: step_def Let_def length_advect length_conduction length_side_loss)

section \<open>The loop invariant\<close>

lemma march_upto_Suc:
  "march_upto c Tin mf Ta T0 (Suc k) = march_body c Tin mf Ta k (march_upto c Tin mf Ta T0 k)"
  by (simp add: march_upto_def)

lemma march_upto_inv:
  "k \<le> nat (n_steps c) \<Longrightarrow>
   length (fst (march_upto c Tin mf Ta T0 k)) = nat (n_steps c) + 1 \<and>
   length (snd (march_upto c Tin mf Ta T0 k)) = nat (n_steps c) \<and>
   (\<forall>t \<le> k. fst (march_upto c Tin mf Ta T0 k) ! t = row_at c Tin mf Ta T0 t) \<and>
   (\<forall>t < nat (n_steps c). snd (march_upto c Tin mf Ta T0 k) ! t =
       (if t < k \<and> ua_node c > 0 then loss_power c (Ta ! t) (row_at c Tin mf Ta T0 t) else 0))"
proof (induction k)
  case 0
  then show ?case by (simp add: march_upto_def)
next
  case (Suc k)
  then have IH: "length (fst (march_upto c Tin mf Ta T0 k)) = nat (n_steps c) + 1"
      "length (snd (march_upto c Tin mf Ta T0 k)) = nat (n_steps c)"
      "\<And>t. t \<le> k \<Longrightarrow> fst (march_upto c Tin mf Ta T0 k) ! t = row_at c Tin mf Ta T0 t"
      "\<And>t. t < nat (n_steps c) \<Longrightarrow> snd (march_upto c Tin mf Ta T0 k) ! t =
       (if t < k \<and> ua_node c > 0 then loss_power c (Ta ! t) (row_at c Tin mf Ta T0 t) else 0)"
    by simp_all
  obtain T Q where TQ: "march_upto c Tin mf Ta T0 k = (T, Q)" by (cases "march_upto c Tin mf Ta T0 k")
  from IH TQ have len: "length T = nat (n_steps c) + 1" "length Q = nat (n_steps c)"
    and rows: "\<And>t. t \<le> k \<Longrightarrow> T ! t = row_at c Tin mf Ta T0 t"
    and qs: "\<And>t. t < nat (n_steps c) \<Longrightarrow> Q ! t =
       (if t < k \<and> ua_node c > 0 then loss_power c (Ta ! t) (row_at c Tin mf Ta T0 t) else 0)"
    by simp_all
  have k: "Suc k \<le> nat (n_steps c)" using Suc.prems .
  let ?new = "step c (Tin ! k) (mf ! k) (Ta ! k) (T ! k)"
  let ?Q' = "if ua_node c > 0 then Q[k := loss_power c (Ta ! k) (T ! k)] else Q"
  have next_state: "march_upto c Tin mf Ta T0 (Suc k) = (T[Suc k := ?new], ?Q')"
    by (simp add: march_upto_Suc TQ march_body_def)
  have Tk: "T ! k = row_at c Tin mf Ta T0 k" using rows[of k] by simp
  have r: "(T[Suc k := ?new]) ! t = row_at c Tin mf Ta T0 t" if "t \<le> Suc k" for t
  proof (cases "t = Suc k")
    case True
    then show ?thesis using len k Tk by simp
  next
    case False
    then show ?thesis using that rows[of t] by simp
  qed
  have q: "?Q' ! t = (if t < Suc k \<and> ua_node c > 0
             then loss_power c (Ta ! t) (row_at c Tin mf Ta T0 t) else 0)"
    if "t < nat (n_steps c)" for t
    using that qs[of t] len Tk by (cases "t = k") (auto simp: nth_list_update)
  show ?case
    unfolding next_state using len r q by simp
qed

section \<open>Validation\<close>

lemma validate_eq:
  "validate c = (if config_bad c then (Some InvalidConfiguration, c)
                 else (None, c\<lparr>discharge_outlet := normalized_outlet c\<rparr>))"
proof (cases "discharge_outlet c = - 1")
  case True
  then show ?thesis
    by (simp add: validate_def config_bad_def normalized_outlet_def Let_def)
next
  case False
  then show ?thesis
    by (simp add: validate_def config_bad_def normalized_outlet_def Let_def)
qed

lemma validate_ok: "fst (validate c) = None \<longleftrightarrow> \<not> config_bad c"
  by (simp add: validate_eq)

lemma validate_err: "fst (validate c) = Some InvalidConfiguration \<longleftrightarrow> config_bad c"
  by (simp add: validate_eq)

lemma validate_snd:
  "snd (validate c) = (if config_bad c then c else c\<lparr>discharge_outlet := normalized_outlet c\<rparr>)"
  by (simp add: validate_eq)

lemma normalized_outlet_idem:
  "\<not> config_bad c \<Longrightarrow> normalized_outlet (c\<lparr>discharge_outlet := normalized_outlet c\<rparr>) = normalized_outlet c"
  by (simp add: normalized_outlet_def config_bad_def)

lemma config_bad_normalized:
  "\<not> config_bad c \<Longrightarrow> \<not> config_bad (c\<lparr>discharge_outlet := normalized_outlet c\<rparr>)"
  using normalized_outlet_idem[of c] by (simp add: config_bad_def)

lemma validate_idem:
  assumes "\<not> config_bad c"
  shows "validate (snd (validate c)) = (None, snd (validate c))"
proof -
  let ?c' = "c\<lparr>discharge_outlet := normalized_outlet c\<rparr>"
  have "validate ?c' = (None, ?c'\<lparr>discharge_outlet := normalized_outlet ?c'\<rparr>)"
    using config_bad_normalized[OF assms] by (simp only: validate_eq if_False)
  also have "?c'\<lparr>discharge_outlet := normalized_outlet ?c'\<rparr> = ?c'"
    using normalized_outlet_idem[OF assms] by simp
  finally show ?thesis using assms by (simp add: validate_snd)
qed

text \<open>What a successful validation guarantees about the configuration the run uses.\<close>

lemma validated_bounds:
  assumes "\<not> config_bad c"
  shows "2 \<le> n_nodes c" "0 < height c" "0 < volume c" "0 < rho c" "0 < cp c" "0 < dt c"
    "1 \<le> n_steps c" "0 \<le> charge_inlet c" "charge_inlet c < n_nodes c"
    "0 \<le> normalized_outlet c" "normalized_outlet c < n_nodes c"
  using assms unfolding config_bad_def by simp_all

text \<open>
  Index safety. On the configuration a run uses (validated, outlet normalised) and a row of
  \<open>n_nodes\<close> entries, every index that the conduction stencil, the charging branch and the
  two discharging branches read or write is non-negative and below the row length; in the
  time loop, every \<open>t\<close> is inside the three series and \<open>t + 1\<close> inside the field. So the
  plain \<open>!\<close> and list updates of the model never leave the lists.
\<close>

lemma indices_in_range:
  assumes "\<not> config_bad c" and "0 \<le> discharge_outlet c" and "discharge_outlet c < n_nodes c"
    and "int (length Tn) = n_nodes c"
  shows "1 < length Tn" "length Tn - 2 < length Tn" "length Tn - 1 < length Tn"
    "nat (charge_inlet c) < length Tn"
    "\<forall>i \<in> set [nat (charge_inlet c) ..< nat (n_nodes c - 1)]. i + 1 < length Tn"
    "nat (discharge_outlet c) < length Tn"
    "\<forall>i \<in> set (rev [1 ..< nat (discharge_outlet c)]). i < length Tn \<and> 0 \<le> int i - 1"
    "0 < discharge_outlet c \<longrightarrow> 0 \<le> discharge_outlet c - 1"
    "\<not> 0 < discharge_outlet c \<longrightarrow> nat (discharge_outlet c) + 1 < length Tn"
    "\<forall>i \<in> set [0 ..< nat (n_nodes c - 2)]. i + 1 < length Tn"
  using assms validated_bounds(1,8,9)[OF assms(1)] by auto

lemma loop_indices_in_range:
  assumes "lens_ok c Tin mf Ta T0" and "t \<in> set [0 ..< nat (n_steps c)]"
  shows "t < length Tin" "t < length mf" "t < length Ta"
    "t + 1 < length (fst (march_upto c Tin mf Ta T0 t))"
    "t < length (snd (march_upto c Tin mf Ta T0 t))"
  using assms march_upto_inv[of t c Tin mf Ta T0] by (auto simp: lens_ok_def)

text \<open>The sample tank: when it is valid, and its derived quantities.\<close>

lemma unit_tank_ok: "2 \<le> nn \<Longrightarrow> 1 \<le> ns \<Longrightarrow> 0 \<le> i \<Longrightarrow> i < nn \<Longrightarrow> j = - 1 \<or> (0 \<le> j \<and> j < nn) \<Longrightarrow>
  fst (validate (unit_tank nn ns ua k i j)) = None"
  by (auto simp: unit_tank_def validate_eq config_bad_def normalized_outlet_def)

lemma unit_tank_mass: "mass_node (unit_tank nn ns ua k i j) = 1 / real_of_int nn"
  by (simp add: unit_tank_def mass_node_def vol_node_def area_cross_def dz_def)

lemma unit_tank_fields:
  "n_nodes (unit_tank nn ns ua k i j) = nn" "n_steps (unit_tank nn ns ua k i j) = ns"
  "dt (unit_tank nn ns ua k i j) = 1" "cp (unit_tank nn ns ua k i j) = 1"
  "charge_inlet (unit_tank nn ns ua k i j) = i" "discharge_outlet (unit_tank nn ns ua k i j) = j"
  "ua_loss (unit_tank nn ns ua k i j) = ua" "k_cond (unit_tank nn ns ua k i j) = k"
  by (simp_all add: unit_tank_def)

section \<open>The outcome of a run\<close>

lemma time_march_upto: "time_march c Tin mf Ta T0 = march_upto c Tin mf Ta T0 (nat (n_steps c))"
  by (simp add: time_march_def march_upto_def Let_def)

lemma simulate_bad: "config_bad c \<Longrightarrow> simulate_stratified_tank c Tin mf Ta T0 = Inl InvalidConfiguration"
  by (simp add: simulate_stratified_tank_def validate_eq)

lemma simulate_lens:
  "\<not> config_bad c \<Longrightarrow> \<not> lens_ok c Tin mf Ta T0 \<Longrightarrow>
   simulate_stratified_tank c Tin mf Ta T0 = Inl DimensionMismatch"
  by (auto simp: simulate_stratified_tank_def validate_eq check_len_def lens_ok_def Let_def)

lemma simulate_ok:
  "\<not> config_bad c \<Longrightarrow> lens_ok c Tin mf Ta T0 \<Longrightarrow>
   simulate_stratified_tank c Tin mf Ta T0 =
     Inr \<lparr>T_hist = fst (time_march (snd (validate c)) Tin mf Ta T0),
          T_top = map (\<lambda>row. row ! nat (n_nodes c - 1)) (fst (time_march (snd (validate c)) Tin mf Ta T0)),
          T_bot = map (\<lambda>row. row ! 0) (fst (time_march (snd (validate c)) Tin mf Ta T0)),
          Q_loss = snd (time_march (snd (validate c)) Tin mf Ta T0)\<rparr>"
  by (simp add: simulate_stratified_tank_def validate_eq check_len_def lens_ok_def Let_def
           split: prod.splits)

lemma march_result:
  assumes "t \<le> nat (n_steps c)"
  shows "length (fst (time_march c Tin mf Ta T0)) = nat (n_steps c) + 1"
    "length (snd (time_march c Tin mf Ta T0)) = nat (n_steps c)"
    "fst (time_march c Tin mf Ta T0) ! t = row_at c Tin mf Ta T0 t"
    "t < nat (n_steps c) \<Longrightarrow> snd (time_march c Tin mf Ta T0) ! t =
       (if ua_node c > 0 then loss_power c (Ta ! t) (row_at c Tin mf Ta T0 t) else 0)"
  using march_upto_inv[of "nat (n_steps c)" c Tin mf Ta T0] assms
  by (simp_all add: time_march_upto)

section \<open>Claims about validation and the dimension tests\<close>

text \<open>
  C8: \<open>validate\<close> raises \<open>InvalidConfiguration\<close> exactly when \<open>n_nodes < 2\<close>,
  \<open>height \<le> 0\<close>, \<open>volume \<le> 0\<close>, \<open>rho \<le> 0\<close>, \<open>cp \<le> 0\<close>, \<open>dt \<le> 0\<close>, \<open>n_steps < 1\<close>,
  \<open>charge_inlet\<close> lies outside \<open>[0, n_nodes)\<close>, or \<open>discharge_outlet\<close>, after the sentinel
  \<open>- 1\<close> has been replaced by \<open>n_nodes - 1\<close>, lies outside \<open>[0, n_nodes)\<close>. When it raises
  the configuration is left as it was; when it succeeds the only change is the replacement of
  the sentinel, and validating the result again succeeds and changes nothing.
\<close>

theorem validate_spec:
  "(fst (validate c) = Some InvalidConfiguration \<longleftrightarrow>
      n_nodes c < 2 \<or> height c \<le> 0 \<or> volume c \<le> 0 \<or> rho c \<le> 0 \<or> cp c \<le> 0 \<or> dt c \<le> 0
      \<or> n_steps c < 1 \<or> \<not> (0 \<le> charge_inlet c \<and> charge_inlet c < n_nodes c)
      \<or> \<not> (0 \<le> (if discharge_outlet c = - 1 then n_nodes c - 1 else discharge_outlet c)
           \<and> (if discharge_outlet c = - 1 then n_nodes c - 1 else discharge_outlet c) < n_nodes c))
   \<and> (fst (validate c) = Some InvalidConfiguration \<longrightarrow> snd (validate c) = c)
   \<and> (fst (validate c) \<noteq> Some InvalidConfiguration \<longrightarrow>
        fst (validate c) = None
        \<and> snd (validate c) =
            (if discharge_outlet c = - 1 then c\<lparr>discharge_outlet := n_nodes c - 1\<rparr> else c)
        \<and> validate (snd (validate c)) = (None, snd (validate c)))"
proof (intro conjI impI)
  show "fst (validate c) = Some InvalidConfiguration \<longleftrightarrow>
      n_nodes c < 2 \<or> height c \<le> 0 \<or> volume c \<le> 0 \<or> rho c \<le> 0 \<or> cp c \<le> 0 \<or> dt c \<le> 0
      \<or> n_steps c < 1 \<or> \<not> (0 \<le> charge_inlet c \<and> charge_inlet c < n_nodes c)
      \<or> \<not> (0 \<le> (if discharge_outlet c = - 1 then n_nodes c - 1 else discharge_outlet c)
           \<and> (if discharge_outlet c = - 1 then n_nodes c - 1 else discharge_outlet c) < n_nodes c)"
    unfolding validate_err config_bad_def normalized_outlet_def ..
next
  assume "fst (validate c) = Some InvalidConfiguration"
  then show "snd (validate c) = c" by (simp add: validate_err validate_snd)
next
  assume "fst (validate c) \<noteq> Some InvalidConfiguration"
  then have ok: "\<not> config_bad c" by (simp add: validate_err)
  show "fst (validate c) = None" using ok by (simp add: validate_ok)
  show "snd (validate c) =
          (if discharge_outlet c = - 1 then c\<lparr>discharge_outlet := n_nodes c - 1\<rparr> else c)"
    using ok by (simp add: validate_snd normalized_outlet_def)
  show "validate (snd (validate c)) = (None, snd (validate c))"
    using ok by (rule validate_idem)
qed

text \<open>
  The theorem at a configuration with the sentinel outlet (accepted, normalised to node 3,
  stable under a second call) and at one with a single node (rejected, unchanged).
\<close>

theorem validate_spec_witness:
  "fst (validate (unit_tank 4 3 0 0 0 (- 1))) \<noteq> Some InvalidConfiguration
   \<and> snd (validate (unit_tank 4 3 0 0 0 (- 1))) = unit_tank 4 3 0 0 0 3
   \<and> validate (unit_tank 4 3 0 0 0 3) = (None, unit_tank 4 3 0 0 0 3)
   \<and> fst (validate (unit_tank 1 3 0 0 0 (- 1))) = Some InvalidConfiguration
   \<and> snd (validate (unit_tank 1 3 0 0 0 (- 1))) = unit_tank 1 3 0 0 0 (- 1)"
  using validate_spec[of "unit_tank 4 3 0 0 0 (- 1)"] validate_spec[of "unit_tank 1 3 0 0 0 (- 1)"]
  by (simp add: unit_tank_def validate_eq config_bad_def normalized_outlet_def)

text \<open>
  C5: the run fails with \<open>DimensionMismatch\<close> exactly when the configuration passes
  validation and one of the three per-step series has a length other than \<open>n_steps\<close> or the
  initial profile has a length other than \<open>n_nodes\<close>. The tests come before the loop: a run
  is either an error, carrying no field and no loss series, or a result whose field has all
  \<open>n_steps + 1\<close> rows, starting with the initial profile, and whose loss series has all
  \<open>n_steps\<close> entries.
\<close>

theorem simulate_dimension_mismatch:
  "(simulate_stratified_tank c Tin mf Ta T0 = Inl DimensionMismatch \<longleftrightarrow>
      fst (validate c) = None \<and>
      (int (length Tin) \<noteq> n_steps c \<or> int (length mf) \<noteq> n_steps c
       \<or> int (length Ta) \<noteq> n_steps c \<or> int (length T0) \<noteq> n_nodes c))
   \<and> (\<forall>out. simulate_stratified_tank c Tin mf Ta T0 = Inr out \<longrightarrow>
         length (T_hist out) = nat (n_steps c) + 1 \<and> length (Q_loss out) = nat (n_steps c)
         \<and> T_hist out ! 0 = T0)"
proof (cases "config_bad c")
  case True
  then show ?thesis by (simp add: simulate_bad validate_ok)
next
  case ok: False
  show ?thesis
  proof (cases "lens_ok c Tin mf Ta T0")
    case True
    have n: "n_steps (snd (validate c)) = n_steps c" by (simp add: validate_snd)
    show ?thesis
      using True ok march_result(1,2,3)[of 0 "snd (validate c)" Tin mf Ta T0]
      by (simp add: simulate_ok n validate_ok) (simp add: lens_ok_def)
  next
    case False
    then show ?thesis using ok by (simp add: simulate_lens validate_ok) (simp add: lens_ok_def)
  qed
qed

text \<open>A mass-flow series of length \<open>n_steps - 1\<close> on a valid configuration.\<close>

theorem simulate_dimension_mismatch_witness:
  "simulate_stratified_tank (unit_tank 2 2 0 0 0 (- 1)) [60, 60] [1] [20, 20] [20, 20]
     = Inl DimensionMismatch
   \<and> fst (validate (unit_tank 2 2 0 0 0 (- 1))) = None
   \<and> int (length [1::real]) \<noteq> n_steps (unit_tank 2 2 0 0 0 (- 1))"
  using simulate_dimension_mismatch[of "unit_tank 2 2 0 0 0 (- 1)" "[60, 60]" "[1]" "[20, 20]" "[20, 20]"]
  by (simp add: unit_tank_def validate_eq config_bad_def normalized_outlet_def)

section \<open>Facts about validated configurations and the rows of a run\<close>

lemma mass_node_pos: "\<not> config_bad c \<Longrightarrow> 0 < mass_node c"
  using validated_bounds[of c]
  by (simp add: mass_node_def vol_node_def area_cross_def dz_def)

lemma ua_node_pos_iff: "\<not> config_bad c \<Longrightarrow> 0 < ua_node c \<longleftrightarrow> 0 < ua_loss c"
  using validated_bounds(1)[of c] by (simp add: ua_node_def)

lemma G_cond_pos_iff: "\<not> config_bad c \<Longrightarrow> 0 < G_cond c \<longleftrightarrow> 0 < k_cond c"
  using validated_bounds[of c] by (simp add: G_cond_def area_cross_def dz_def)

text \<open>The configuration the loop runs on.\<close>

lemma run_config:
  assumes "\<not> config_bad c"
  shows "\<not> config_bad (snd (validate c))"
    "n_nodes (snd (validate c)) = n_nodes c" "n_steps (snd (validate c)) = n_steps c"
    "mass_node (snd (validate c)) = mass_node c" "ua_node (snd (validate c)) = ua_node c"
    "G_cond (snd (validate c)) = G_cond c" "dt (snd (validate c)) = dt c"
    "cp (snd (validate c)) = cp c" "charge_inlet (snd (validate c)) = charge_inlet c"
    "discharge_outlet (snd (validate c)) = normalized_outlet c"
    "ua_loss (snd (validate c)) = ua_loss c" "k_cond (snd (validate c)) = k_cond c"
  using assms config_bad_normalized[OF assms]
  by (simp_all add: validate_snd mass_node_def vol_node_def area_cross_def dz_def ua_node_def G_cond_def)

lemma length_row_at:
  "2 \<le> length T0 \<Longrightarrow> length (row_at c Tin mf Ta T0 t) = length T0"
  by (induction t) (simp_all add: length_step)

lemma step_no_loss_no_cond:
  "\<not> 0 < ua_node c \<Longrightarrow> \<not> 0 < G_cond c \<Longrightarrow> step c a m b row = advect c m a row"
  by (simp add: step_def)

lemma row_at_idle:
  assumes "\<not> 0 < ua_node c" "\<not> 0 < G_cond c" "\<forall>x\<in>set mf. x = 0" "t \<le> length mf"
  shows "row_at c Tin mf Ta T0 t = T0"
  using assms(4)
proof (induction t)
  case 0
  show ?case by simp
next
  case (Suc t)
  then have "mf ! t = 0" using assms(3) by simp
  then show ?case using Suc assms(1,2) by (simp add: step_no_loss_no_cond advect_def)
qed

lemma simulate_first_row:
  assumes "simulate_stratified_tank c Tin mf Ta T0 = Inr out"
  shows "T_hist out ! 0 = T0"
proof -
  have ok: "\<not> config_bad c" using assms simulate_bad[of c Tin mf Ta T0] by auto
  have l: "lens_ok c Tin mf Ta T0" using assms ok simulate_lens[of c Tin mf Ta T0] by auto
  show ?thesis
    using assms march_result(3)[of 0 "snd (validate c)" Tin mf Ta T0]
    by (auto simp: simulate_ok[OF ok l])
qed

text \<open>Row \<open>t + 1\<close> of a run is one \<open>step\<close> applied to row \<open>t\<close>.\<close>

lemma simulate_step:
  assumes "simulate_stratified_tank c Tin mf Ta T0 = Inr out" and "t < nat (n_steps c)"
  shows "T_hist out ! (t + 1) = step (snd (validate c)) (Tin ! t) (mf ! t) (Ta ! t) (T_hist out ! t)"
proof -
  have ok: "\<not> config_bad c" using assms(1) simulate_bad[of c Tin mf Ta T0] by auto
  have l: "lens_ok c Tin mf Ta T0" using assms(1) ok simulate_lens[of c Tin mf Ta T0] by auto
  have T: "T_hist out = fst (time_march (snd (validate c)) Tin mf Ta T0)"
    using assms(1) by (auto simp: simulate_ok[OF ok l])
  show ?thesis
    unfolding T
    using assms(2) march_result(3)[of t "snd (validate c)" Tin mf Ta T0]
      march_result(3)[of "Suc t" "snd (validate c)" Tin mf Ta T0]
    by (simp add: run_config[OF ok])
qed

section \<open>Claims about idle steps and the loss series\<close>

text \<open>
  C4: for a validated configuration with \<open>ua_loss = 0\<close> and \<open>k_cond = 0\<close> and a mass-flow
  series that is zero throughout, the run succeeds and every one of the \<open>n_steps + 1\<close> rows
  of the temperature field equals the initial profile.
\<close>

theorem idle_invariance:
  assumes "fst (validate c) = None" and "ua_loss c = 0" and "k_cond c = 0"
    and "lens_ok c Tin mf Ta T0" and "\<forall>x\<in>set mf. x = 0"
  shows "\<exists>out. simulate_stratified_tank c Tin mf Ta T0 = Inr out
           \<and> T_hist out = replicate (nat (n_steps c) + 1) T0"
proof -
  have ok: "\<not> config_bad c" using assms(1) by (simp add: validate_ok)
  let ?c = "snd (validate c)"
  let ?T = "fst (time_march ?c Tin mf Ta T0)"
  have off: "\<not> 0 < ua_node ?c" "\<not> 0 < G_cond ?c"
    using assms(2,3) ok by (simp_all add: run_config ua_node_pos_iff G_cond_pos_iff)
  have len: "length mf = nat (n_steps c)" using assms(4) by (auto simp: lens_ok_def)
  have rows: "?T ! t = T0" if "t \<le> nat (n_steps c)" for t
    using that march_result(3)[of t ?c Tin mf Ta T0] row_at_idle[OF off assms(5), of t Tin Ta T0] len ok
    by (simp add: run_config)
  have lenT: "length ?T = nat (n_steps c) + 1"
    using march_result(1)[of 0 ?c Tin mf Ta T0] ok by (simp add: run_config)
  have "?T = replicate (nat (n_steps c) + 1) T0"
  proof (rule nth_equalityI)
    show "length ?T = length (replicate (nat (n_steps c) + 1) T0)" using lenT by simp
  next
    fix t assume "t < length ?T"
    then have t: "t \<le> nat (n_steps c)" using lenT by simp
    then have "replicate (nat (n_steps c) + 1) T0 ! t = T0" by (simp only: nth_replicate less_Suc_eq_le Suc_eq_plus1[symmetric])
    then show "?T ! t = replicate (nat (n_steps c) + 1) T0 ! t" using rows[OF t] by simp
  qed
  then show ?thesis using ok assms(4) by (simp add: simulate_ok)
qed

text \<open>Two idle steps of a three-node tank.\<close>

theorem idle_invariance_witness:
  "fst (validate (unit_tank 3 2 0 0 0 (- 1))) = None
   \<and> lens_ok (unit_tank 3 2 0 0 0 (- 1)) [60, 60] [0, 0] [5, 5] [10, 20, 30]
   \<and> (\<exists>out. simulate_stratified_tank (unit_tank 3 2 0 0 0 (- 1)) [60, 60] [0, 0] [5, 5] [10, 20, 30]
           = Inr out \<and> T_hist out = [[10, 20, 30], [10, 20, 30], [10, 20, 30]])"
  using idle_invariance[of "unit_tank 3 2 0 0 0 (- 1)" "[60, 60]" "[0, 0]" "[5, 5]" "[10, 20, 30]"]
  by (simp add: unit_tank_def validate_eq config_bad_def normalized_outlet_def lens_ok_def
        numeral_3_eq_3)

text \<open>
  C6: in every run the loss series has length \<open>n_steps\<close>. With \<open>ua_loss > 0\<close> its entry
  \<open>t\<close> is the sum over the nodes of \<open>ua_node * (T[t][i] - T_amb[t])\<close>, where
  \<open>ua_node = ua_loss / n_nodes\<close> and \<open>T[t]\<close> is row \<open>t\<close> of the field, the row as it stood
  before the loss update of step \<open>t\<close>: the update acts on the working copy that becomes
  row \<open>t + 1\<close>. With \<open>ua_loss = 0\<close> the entry is 0 and the loss phase is skipped: row
  \<open>t + 1\<close> is the conduction and advection of row \<open>t\<close>.
\<close>

theorem loss_power_recorded:
  assumes "fst (validate c) = None" and "lens_ok c Tin mf Ta T0"
  shows "\<exists>out. simulate_stratified_tank c Tin mf Ta T0 = Inr out
           \<and> length (Q_loss out) = nat (n_steps c)
           \<and> (\<forall>t < nat (n_steps c).
                 (0 < ua_loss c \<longrightarrow>
                    Q_loss out ! t =
                      (\<Sum>x\<leftarrow>T_hist out ! t. ua_loss c / real_of_int (n_nodes c) * (x - Ta ! t))
                  \<and> T_hist out ! (t + 1) =
                      advect (snd (validate c)) (mf ! t) (Tin ! t)
                        (if 0 < k_cond c
                         then conduction (snd (validate c))
                                (side_loss (snd (validate c)) (Ta ! t) (T_hist out ! t))
                         else side_loss (snd (validate c)) (Ta ! t) (T_hist out ! t)))
               \<and> (ua_loss c = 0 \<longrightarrow>
                    Q_loss out ! t = 0
                  \<and> T_hist out ! (t + 1) =
                      advect (snd (validate c)) (mf ! t) (Tin ! t)
                        (if 0 < k_cond c then conduction (snd (validate c)) (T_hist out ! t)
                         else T_hist out ! t)))"
proof -
  have ok: "\<not> config_bad c" using assms(1) by (simp add: validate_ok)
  let ?c = "snd (validate c)"
  let ?T = "fst (time_march ?c Tin mf Ta T0)"
  note rc = run_config[OF ok]
  have q: "snd (time_march ?c Tin mf Ta T0) ! t =
            (if 0 < ua_loss c
             then (\<Sum>x\<leftarrow>?T ! t. ua_loss c / real_of_int (n_nodes c) * (x - Ta ! t))
             else 0)" if "t < nat (n_steps c)" for t
    using that march_result(3,4)[of t ?c Tin mf Ta T0] ok
    by (simp add: rc ua_node_pos_iff loss_power_def) (simp add: ua_node_def)
  have r: "?T ! (t + 1) = step ?c (Tin ! t) (mf ! t) (Ta ! t) (?T ! t)" if "t < nat (n_steps c)" for t
    using that march_result(3)[of t ?c Tin mf Ta T0] march_result(3)[of "Suc t" ?c Tin mf Ta T0]
    by (simp add: rc)
  have s1: "step ?c a m b row
      = advect ?c m a (if 0 < k_cond c then conduction ?c (side_loss ?c b row) else side_loss ?c b row)"
    if "0 < ua_loss c" for a m b row
    using that ok by (simp add: step_def rc ua_node_pos_iff G_cond_pos_iff)
  have s0: "step ?c a m b row = advect ?c m a (if 0 < k_cond c then conduction ?c row else row)"
    if "ua_loss c = 0" for a m b row
    using that ok by (simp add: step_def rc ua_node_pos_iff G_cond_pos_iff)
  have len: "length (snd (time_march ?c Tin mf Ta T0)) = nat (n_steps c)"
    using march_result(2)[of 0 ?c Tin mf Ta T0] by (simp add: rc)
  have body: "(0 < ua_loss c \<longrightarrow>
                    snd (time_march ?c Tin mf Ta T0) ! t =
                      (\<Sum>x\<leftarrow>?T ! t. ua_loss c / real_of_int (n_nodes c) * (x - Ta ! t))
                  \<and> ?T ! (t + 1) =
                      advect ?c (mf ! t) (Tin ! t)
                        (if 0 < k_cond c
                         then conduction ?c (side_loss ?c (Ta ! t) (?T ! t))
                         else side_loss ?c (Ta ! t) (?T ! t)))
               \<and> (ua_loss c = 0 \<longrightarrow>
                    snd (time_march ?c Tin mf Ta T0) ! t = 0
                  \<and> ?T ! (t + 1) =
                      advect ?c (mf ! t) (Tin ! t)
                        (if 0 < k_cond c then conduction ?c (?T ! t) else ?T ! t))"
    if t: "t < nat (n_steps c)" for t
  proof (intro conjI impI)
    assume p: "0 < ua_loss c"
    show "snd (time_march ?c Tin mf Ta T0) ! t =
                      (\<Sum>x\<leftarrow>?T ! t. ua_loss c / real_of_int (n_nodes c) * (x - Ta ! t))"
      using q[OF t] p by simp
    show "?T ! (t + 1) = advect ?c (mf ! t) (Tin ! t)
                        (if 0 < k_cond c
                         then conduction ?c (side_loss ?c (Ta ! t) (?T ! t))
                         else side_loss ?c (Ta ! t) (?T ! t))"
      unfolding r[OF t] by (rule s1[OF p])
  next
    assume z: "ua_loss c = 0"
    show "snd (time_march ?c Tin mf Ta T0) ! t = 0" using q[OF t] z by simp
    show "?T ! (t + 1) = advect ?c (mf ! t) (Tin ! t)
                        (if 0 < k_cond c then conduction ?c (?T ! t) else ?T ! t)"
      unfolding r[OF t] by (rule s0[OF z])
  qed
  show ?thesis
    unfolding simulate_ok[OF ok assms(2)] using len body by simp
qed

text \<open>One step with \<open>ua_loss = 2\<close> on two nodes: the loss power is \<open>(20 - 10) + (30 - 10)\<close>.\<close>

theorem loss_power_recorded_witness:
  "fst (validate (unit_tank 2 1 2 0 0 (- 1))) = None
   \<and> lens_ok (unit_tank 2 1 2 0 0 (- 1)) [60] [0] [10] [20, 30]
   \<and> (\<exists>out. simulate_stratified_tank (unit_tank 2 1 2 0 0 (- 1)) [60] [0] [10] [20, 30] = Inr out
          \<and> length (Q_loss out) = 1 \<and> Q_loss out ! 0 = 30 \<and> T_hist out ! 0 = [20, 30])"
proof -
  let ?c = "unit_tank 2 1 2 0 0 (- 1)"
  let ?Tin = "[60 :: real]" and ?mf = "[0 :: real]" and ?Ta = "[10 :: real]"
  have a: "fst (validate ?c) = None" by (simp add: unit_tank_ok)
  have b: "lens_ok ?c ?Tin ?mf ?Ta [20, 30]" by (simp add: unit_tank_fields lens_ok_def)
  from loss_power_recorded[OF a b] obtain out where
    oh: "simulate_stratified_tank ?c ?Tin ?mf ?Ta [20, 30] = Inr out
           \<and> length (Q_loss out) = nat (n_steps ?c)
           \<and> (\<forall>t < nat (n_steps ?c).
                 (0 < ua_loss ?c \<longrightarrow>
                    Q_loss out ! t =
                      (\<Sum>x\<leftarrow>T_hist out ! t. ua_loss ?c / real_of_int (n_nodes ?c) * (x - ?Ta ! t))
                  \<and> T_hist out ! (t + 1) =
                      advect (snd (validate ?c)) (?mf ! t) (?Tin ! t)
                        (if 0 < k_cond ?c
                         then conduction (snd (validate ?c))
                                (side_loss (snd (validate ?c)) (?Ta ! t) (T_hist out ! t))
                         else side_loss (snd (validate ?c)) (?Ta ! t) (T_hist out ! t)))
               \<and> (ua_loss ?c = 0 \<longrightarrow>
                    Q_loss out ! t = 0
                  \<and> T_hist out ! (t + 1) =
                      advect (snd (validate ?c)) (?mf ! t) (?Tin ! t)
                        (if 0 < k_cond ?c then conduction (snd (validate ?c)) (T_hist out ! t)
                         else T_hist out ! t)))" ..
  note o = oh[THEN conjunct1] and l = oh[THEN conjunct2, THEN conjunct1]
    and q = oh[THEN conjunct2, THEN conjunct2, THEN spec, of 0]
  have h: "T_hist out ! 0 = [20, 30]" using simulate_first_row[OF o] .
  have "length (Q_loss out) = 1 \<and> Q_loss out ! 0 = 30"
    using l q h by (simp add: unit_tank_fields)
  with a b o h show ?thesis by simp
qed

section \<open>Negative loss and conduction coefficients\<close>

lemma nonneg_fields:
  "n_nodes (nonneg_coeffs c) = n_nodes c" "n_steps (nonneg_coeffs c) = n_steps c"
  "dt (nonneg_coeffs c) = dt c" "cp (nonneg_coeffs c) = cp c"
  "charge_inlet (nonneg_coeffs c) = charge_inlet c"
  "discharge_outlet (nonneg_coeffs c) = discharge_outlet c"
  "mass_node (nonneg_coeffs c) = mass_node c"
  "ua_node (nonneg_coeffs c) = ua_node c"
  "G_cond (nonneg_coeffs c) = G_cond c"
  by (simp_all add: nonneg_coeffs_def mass_node_def vol_node_def area_cross_def dz_def
        ua_node_def G_cond_def)

lemma nonneg_config_bad: "config_bad (nonneg_coeffs c) = config_bad c"
  by (simp add: config_bad_def normalized_outlet_def nonneg_coeffs_def)

lemma nonneg_lens_ok: "lens_ok (nonneg_coeffs c) = lens_ok c"
  by (simp add: lens_ok_def nonneg_fields fun_eq_iff)

lemma nonneg_side_loss: "side_loss (nonneg_coeffs c) a xs = side_loss c a xs"
  unfolding side_loss_def nonneg_fields by (rule refl)

lemma nonneg_conduction: "conduction (nonneg_coeffs c) xs = conduction c xs"
  unfolding conduction_def dT_cond_def nonneg_fields by (rule refl)

lemma nonneg_advect: "advect (nonneg_coeffs c) m a xs = advect c m a xs"
  unfolding advect_def charge_def discharge_def nonneg_fields by (rule refl)

lemma nonneg_step: "step (nonneg_coeffs c) a m b xs = step c a m b xs"
  unfolding step_def nonneg_side_loss nonneg_conduction nonneg_advect nonneg_fields by (rule refl)

lemma nonneg_loss_power: "loss_power (nonneg_coeffs c) a xs = loss_power c a xs"
  unfolding loss_power_def nonneg_fields by (rule refl)

lemma nonneg_time_march: "time_march (nonneg_coeffs c) Tin mf Ta T0 = time_march c Tin mf Ta T0"
  unfolding time_march_def march_body_def nonneg_step nonneg_loss_power nonneg_fields by (rule refl)

lemma nonneg_validate:
  "snd (validate (nonneg_coeffs c)) = nonneg_coeffs (snd (validate c))"
  by (simp add: validate_snd nonneg_config_bad) (simp add: nonneg_coeffs_def normalized_outlet_def)

text \<open>
  C9: \<open>validate\<close> does not look at \<open>ua_loss\<close> and \<open>k_cond\<close>, so a configuration whose
  only defect is a negative \<open>ua_loss\<close> or \<open>k_cond\<close> passes it, and the run returns exactly what
  it returns for the configuration with the negative coefficients replaced by 0
  (\<open>nonneg_coeffs\<close>): with \<open>ua_loss < 0\<close>, \<open>ua_node\<close> is 0 and the loss series is all
  zeros; with \<open>k_cond < 0\<close>, \<open>G_cond\<close> is 0; with both, a step is its advection phase alone.
\<close>

theorem negative_coefficients_as_zero:
  "fst (validate c) = fst (validate (nonneg_coeffs c))
   \<and> simulate_stratified_tank c Tin mf Ta T0 = simulate_stratified_tank (nonneg_coeffs c) Tin mf Ta T0
   \<and> (ua_loss c < 0 \<longrightarrow> ua_node c = 0
         \<and> (\<forall>out. simulate_stratified_tank c Tin mf Ta T0 = Inr out \<longrightarrow>
               Q_loss out = replicate (nat (n_steps c)) 0))
   \<and> (k_cond c < 0 \<longrightarrow> G_cond c = 0)
   \<and> (ua_loss c < 0 \<and> k_cond c < 0 \<longrightarrow> step c a m b row = advect c m a row)"
proof (intro conjI impI allI)
  show "fst (validate c) = fst (validate (nonneg_coeffs c))"
    by (simp add: validate_eq nonneg_config_bad)
  show "simulate_stratified_tank c Tin mf Ta T0 = simulate_stratified_tank (nonneg_coeffs c) Tin mf Ta T0"
  proof (cases "config_bad c")
    case True
    then show ?thesis by (simp add: simulate_bad nonneg_config_bad)
  next
    case ok: False
    show ?thesis
    proof (cases "lens_ok c Tin mf Ta T0")
      case True
      then show ?thesis using ok
        by (simp add: simulate_ok nonneg_config_bad nonneg_lens_ok nonneg_validate
              nonneg_time_march nonneg_fields)
    next
      case False
      then show ?thesis using ok by (simp add: simulate_lens nonneg_config_bad nonneg_lens_ok)
    qed
  qed
next
  assume "ua_loss c < 0"
  then show "ua_node c = 0" by (simp add: ua_node_def)
next
  fix out
  assume neg: "ua_loss c < 0" and run: "simulate_stratified_tank c Tin mf Ta T0 = Inr out"
  have ok: "\<not> config_bad c" using run simulate_bad[of c Tin mf Ta T0] by auto
  have l: "lens_ok c Tin mf Ta T0" using run ok simulate_lens[of c Tin mf Ta T0] by auto
  let ?Q = "snd (time_march (snd (validate c)) Tin mf Ta T0)"
  have Q: "Q_loss out = ?Q" using run by (auto simp: simulate_ok[OF ok l])
  have off: "\<not> 0 < ua_node (snd (validate c))" using neg ok by (simp add: run_config ua_node_def)
  have "?Q = replicate (nat (n_steps c)) 0"
  proof (rule nth_equalityI)
    show "length ?Q = length (replicate (nat (n_steps c)) (0::real))"
      using march_result(2)[of 0 "snd (validate c)" Tin mf Ta T0] ok by (simp add: run_config)
  next
    fix t assume "t < length ?Q"
    then have t: "t < nat (n_steps c)"
      using march_result(2)[of 0 "snd (validate c)" Tin mf Ta T0] ok by (simp add: run_config)
    then show "?Q ! t = replicate (nat (n_steps c)) 0 ! t"
      using march_result(4)[of t "snd (validate c)" Tin mf Ta T0] off ok by (simp add: run_config)
  qed
  then show "Q_loss out = replicate (nat (n_steps c)) 0" using Q by simp
next
  assume "k_cond c < 0"
  then show "G_cond c = 0" by (simp add: G_cond_def)
next
  assume "ua_loss c < 0 \<and> k_cond c < 0"
  then show "step c a m b row = advect c m a row"
    by (simp add: step_no_loss_no_cond ua_node_def G_cond_def)
qed

text \<open>A two-node tank with \<open>ua_loss = - 3\<close> and \<open>k_cond = - 4\<close>.\<close>

theorem negative_coefficients_as_zero_witness:
  "ua_loss (unit_tank 2 1 (- 3) (- 4) 0 (- 1)) < 0 \<and> k_cond (unit_tank 2 1 (- 3) (- 4) 0 (- 1)) < 0
   \<and> nonneg_coeffs (unit_tank 2 1 (- 3) (- 4) 0 (- 1)) = unit_tank 2 1 0 0 0 (- 1)
   \<and> fst (validate (unit_tank 2 1 (- 3) (- 4) 0 (- 1))) = None
   \<and> simulate_stratified_tank (unit_tank 2 1 (- 3) (- 4) 0 (- 1)) [60] [0] [10] [20, 30]
       = simulate_stratified_tank (unit_tank 2 1 0 0 0 (- 1)) [60] [0] [10] [20, 30]
   \<and> ua_node (unit_tank 2 1 (- 3) (- 4) 0 (- 1)) = 0 \<and> G_cond (unit_tank 2 1 (- 3) (- 4) 0 (- 1)) = 0"
proof -
  have n: "nonneg_coeffs (unit_tank 2 1 (- 3) (- 4) 0 (- 1)) = unit_tank 2 1 0 0 0 (- 1)"
    by (simp add: nonneg_coeffs_def unit_tank_def)
  have v: "fst (validate (unit_tank 2 1 0 0 0 (- 1))) = None"
    by (simp add: unit_tank_def validate_eq config_bad_def normalized_outlet_def)
  have neg: "ua_loss (unit_tank 2 1 (- 3) (- 4) 0 (- 1)) < 0" "k_cond (unit_tank 2 1 (- 3) (- 4) 0 (- 1)) < 0"
    by (simp_all add: unit_tank_def)
  show ?thesis
    using negative_coefficients_as_zero[of "unit_tank 2 1 (- 3) (- 4) 0 (- 1)" "[60]" "[0]" "[10]" "[20, 30]"]
      n v neg by simp
qed

section \<open>Charging\<close>

text \<open>
  The propagation loop of the charging branch, over any range \<open>[a..<b]\<close> inside the row:
  nodes up to \<open>a\<close> and above \<open>b\<close> keep their value, and node \<open>i + 1\<close> is mixed once,
  with the final value of node \<open>i\<close>.
\<close>

lemma sweep_up:
  assumes "b < length xs" "a \<le> b"
  shows "length (fold (\<lambda>i Tn. Tn[i + 1 := (1 - f) * Tn ! (i + 1) + f * Tn ! i]) [a ..< b] xs) = length xs
    \<and> (\<forall>j \<le> a. fold (\<lambda>i Tn. Tn[i + 1 := (1 - f) * Tn ! (i + 1) + f * Tn ! i]) [a ..< b] xs ! j = xs ! j)
    \<and> (\<forall>j > b. fold (\<lambda>i Tn. Tn[i + 1 := (1 - f) * Tn ! (i + 1) + f * Tn ! i]) [a ..< b] xs ! j = xs ! j)
    \<and> (\<forall>i. a \<le> i \<and> i < b \<longrightarrow>
          fold (\<lambda>i Tn. Tn[i + 1 := (1 - f) * Tn ! (i + 1) + f * Tn ! i]) [a ..< b] xs ! (i + 1)
          = (1 - f) * xs ! (i + 1)
            + f * fold (\<lambda>i Tn. Tn[i + 1 := (1 - f) * Tn ! (i + 1) + f * Tn ! i]) [a ..< b] xs ! i)"
  using assms
proof (induction b)
  case 0
  then show ?case by simp
next
  case (Suc b)
  show ?case
  proof (cases "a = Suc b")
    case True
    then show ?thesis by auto
  next
    case False
    then have ab: "a \<le> b" using Suc.prems by simp
    let ?R = "fold (\<lambda>i Tn. Tn[i + 1 := (1 - f) * Tn ! (i + 1) + f * Tn ! i]) [a ..< b] xs"
    have IH: "length ?R = length xs" "\<And>j. j \<le> a \<Longrightarrow> ?R ! j = xs ! j"
      "\<And>j. j > b \<Longrightarrow> ?R ! j = xs ! j"
      "\<And>i. a \<le> i \<Longrightarrow> i < b \<Longrightarrow> ?R ! (i + 1) = (1 - f) * xs ! (i + 1) + f * ?R ! i"
      using Suc.IH[OF _ ab] Suc.prems by simp_all
    have unf: "fold (\<lambda>i Tn. Tn[i + 1 := (1 - f) * Tn ! (i + 1) + f * Tn ! i]) [a ..< Suc b] xs
        = ?R[Suc b := (1 - f) * xs ! (Suc b) + f * ?R ! b]"
      using ab IH(3)[of "Suc b"] by simp
    show ?thesis
      unfolding unf using IH Suc.prems ab
      by (auto simp: nth_list_update less_Suc_eq)
  qed
qed


text \<open>
  C2: in a step with \<open>m_flow[t] > 0\<close> the advection phase maps the row \<open>Tn\<close> left by
  the loss and conduction phases to the row \<open>R\<close> with
  \<open>R[i_in] = (1 - \<alpha>) * Tn[i_in] + \<alpha> * Tin_charge[t]\<close> at \<open>i_in = charge_inlet\<close>,
  \<open>\<alpha> = m * dt / (mass_node + m * dt)\<close>, and, for \<open>i = i_in, ..., n_nodes - 2\<close>,
  \<open>R[i + 1] = (1 - frac) * Tn[i + 1] + frac * R[i]\<close> with \<open>frac = min 1 (m * dt / mass_node)\<close>:
  the right-hand side uses the updated value of node \<open>i\<close>. Nodes below the inlet are
  unchanged, and for \<open>i_in = n_nodes - 1\<close> only the inlet node changes.
\<close>

theorem charging_advection:
  assumes "fst (validate c) = None" and "int (length Tn) = n_nodes c" and "0 < mf"
  shows "let R = advect c mf Tin Tn;
             i_in = nat (charge_inlet c);
             alpha = (mf * dt c) / (mass_node c + mf * dt c);
             frac = min 1 ((mf * dt c) / mass_node c)
         in length R = length Tn
          \<and> (\<forall>j < i_in. R ! j = Tn ! j)
          \<and> R ! i_in = (1 - alpha) * Tn ! i_in + alpha * Tin
          \<and> (\<forall>i. i_in \<le> i \<and> i < nat (n_nodes c - 1) \<longrightarrow>
                 R ! (i + 1) = (1 - frac) * Tn ! (i + 1) + frac * R ! i)
          \<and> (charge_inlet c = n_nodes c - 1 \<longrightarrow>
                 R = Tn[i_in := (1 - alpha) * Tn ! i_in + alpha * Tin])"
proof -
  have ok: "\<not> config_bad c" using assms(1) by (simp add: validate_ok)
  define i_in where "i_in = nat (charge_inlet c)"
  define alpha where "alpha = (mf * dt c) / (mass_node c + mf * dt c)"
  define frac where "frac = min 1 ((mf * dt c) / mass_node c)"
  define Tn1 where "Tn1 = Tn[i_in := (1 - alpha) * Tn ! i_in + alpha * Tin]"
  define R where "R = advect c mf Tin Tn"
  have len: "length Tn = nat (n_nodes c)" using assms(2) by auto
  have iin: "i_in < length Tn" "int i_in = charge_inlet c"
    using validated_bounds(8,9)[OF ok] len by (simp_all add: i_in_def)
  have Tn1: "length Tn1 = length Tn" "Tn1 ! i_in = (1 - alpha) * Tn ! i_in + alpha * Tin"
    "\<And>j. j \<noteq> i_in \<Longrightarrow> Tn1 ! j = Tn ! j"
    using iin by (simp_all add: Tn1_def)
  have R_eq: "R = (if charge_inlet c < n_nodes c - 1
        then fold (\<lambda>i Tn. Tn[i + 1 := (1 - frac) * Tn ! (i + 1) + frac * Tn ! i])
                      [i_in ..< nat (n_nodes c - 1)] Tn1
        else Tn1)"
    using assms(3)
    unfolding R_def advect_def charge_def Let_def Tn1_def i_in_def alpha_def frac_def by simp
  have main: "length R = length Tn
          \<and> (\<forall>j < i_in. R ! j = Tn ! j)
          \<and> R ! i_in = (1 - alpha) * Tn ! i_in + alpha * Tin
          \<and> (\<forall>i. i_in \<le> i \<and> i < nat (n_nodes c - 1) \<longrightarrow>
                 R ! (i + 1) = (1 - frac) * Tn ! (i + 1) + frac * R ! i)
          \<and> (charge_inlet c = n_nodes c - 1 \<longrightarrow> R = Tn1)"
  proof (cases "charge_inlet c < n_nodes c - 1")
    case True
    let ?b = "nat (n_nodes c - 1)"
    have b: "?b < length Tn1" "i_in \<le> ?b" using True iin len Tn1(1) validated_bounds(1)[OF ok] by auto
    note sw = sweep_up[OF b, of frac]
    have R: "R = fold (\<lambda>i Tn. Tn[i + 1 := (1 - frac) * Tn ! (i + 1) + frac * Tn ! i]) [i_in ..< ?b] Tn1"
      using True R_eq by simp
    have 1: "length R = length Tn" using sw Tn1(1) unfolding R by simp
    have 2: "R ! j = Tn ! j" if "j < i_in" for j
      using sw that Tn1(3)[of j] unfolding R by simp
    have 3: "R ! i_in = (1 - alpha) * Tn ! i_in + alpha * Tin"
      using sw Tn1(2) unfolding R by simp
    have 4: "R ! (i + 1) = (1 - frac) * Tn ! (i + 1) + frac * R ! i" if "i_in \<le> i" "i < ?b" for i
    proof -
      have "R ! (i + 1) = (1 - frac) * Tn1 ! (i + 1) + frac * R ! i"
        using sw that unfolding R by blast
      then show ?thesis using Tn1(3)[of "i + 1"] that by simp
    qed
    show ?thesis using 1 2 3 4 True by simp
  next
    case False
    then have R: "R = Tn1" using R_eq by simp
    have top: "\<not> (i_in \<le> i \<and> i < nat (n_nodes c - 1))" for i
      using False iin by auto
    show ?thesis using Tn1 top unfolding R by auto
  qed
  show ?thesis
    using main
    unfolding Let_def R_def[symmetric] i_in_def[symmetric] alpha_def[symmetric] frac_def[symmetric] Tn1_def[symmetric]
    by simp
qed

text \<open>
  Three nodes at 20, inlet at the bottom, \<open>m_flow = 1 / 6\<close>, inlet temperature 50:
  \<open>\<alpha> = 1 / 3\<close> and \<open>frac = 1 / 2\<close>.
\<close>

theorem charging_advection_witness:
  "fst (validate (unit_tank 3 1 0 0 0 2)) = None
   \<and> int (length [20, 20, 20 :: real]) = n_nodes (unit_tank 3 1 0 0 0 2)
   \<and> (0::real) < 1 / 6
   \<and> advect (unit_tank 3 1 0 0 0 2) (1 / 6) 50 [20, 20, 20] ! 0 = 30
   \<and> advect (unit_tank 3 1 0 0 0 2) (1 / 6) 50 [20, 20, 20] ! 1 = 25
   \<and> advect (unit_tank 3 1 0 0 0 2) (1 / 6) 50 [20, 20, 20] ! 2 = 45 / 2
   \<and> length (advect (unit_tank 3 1 0 0 0 2) (1 / 6) 50 [20, 20, 20]) = 3"
proof -
  have a: "fst (validate (unit_tank 3 1 0 0 0 2)) = None" by (simp add: unit_tank_ok)
  have b: "int (length [20, 20, 20 :: real]) = n_nodes (unit_tank 3 1 0 0 0 2)"
    by (simp add: unit_tank_fields)
  have c: "(0::real) < 1 / 6" by simp
  note th = charging_advection[OF a b c, of 50, unfolded Let_def unit_tank_fields unit_tank_mass]
  let ?R = "advect (unit_tank 3 1 0 0 0 2) (1 / 6) 50 [20, 20, 20]"
  have r0: "?R ! 0 = 30" using th by simp
  have r1: "?R ! 1 = 25" using th[THEN conjunct2, THEN conjunct2, THEN conjunct2, THEN conjunct1, THEN spec, of 0] r0 by simp
  have r2: "?R ! 2 = 45 / 2" using th[THEN conjunct2, THEN conjunct2, THEN conjunct2, THEN conjunct1, THEN spec, of 1] r1 by (simp add: numeral_2_eq_2)
  have l: "length ?R = 3" using th by simp
  show ?thesis using a b c r0 r1 r2 l by simp
qed

section \<open>Advection as a convex combination\<close>

text \<open>
  Each assignment of the advection phase replaces a node by \<open>(1 - f) * a + f * b\<close> with
  \<open>0 \<le> f \<le> 1\<close>, so an interval that holds the row (and the inlet temperature, when
  charging) before the phase holds it afterwards.
\<close>

lemma convex_bounds:
  fixes f :: real
  assumes "0 \<le> f" "f \<le> 1" "lo \<le> a" "a \<le> hi" "lo \<le> b" "b \<le> hi"
  shows "lo \<le> (1 - f) * a + f * b" "(1 - f) * a + f * b \<le> hi"
proof -
  have "(1 - f) * lo \<le> (1 - f) * a" "f * lo \<le> f * b"
    using assms by (simp_all add: mult_left_mono)
  then have "(1 - f) * lo + f * lo \<le> (1 - f) * a + f * b" by (rule add_mono)
  then show "lo \<le> (1 - f) * a + f * b" by (simp add: algebra_simps)
  have "(1 - f) * a \<le> (1 - f) * hi" "f * b \<le> f * hi"
    using assms by (simp_all add: mult_left_mono)
  then have "(1 - f) * a + f * b \<le> (1 - f) * hi + f * hi" by (rule add_mono)
  then show "(1 - f) * a + f * b \<le> hi" by (simp add: algebra_simps)
qed

lemma all_between_nth: "all_between lo hi xs \<Longrightarrow> i < length xs \<Longrightarrow> lo \<le> xs ! i \<and> xs ! i \<le> hi"
  by (simp add: all_between_def)

lemma all_between_update:
  assumes "all_between lo hi xs" "lo \<le> v" "v \<le> hi"
  shows "all_between lo hi (xs[i := v])"
  using assms set_update_subset_insert[of xs i v] by (auto simp: all_between_def)

lemma all_between_mix:
  assumes "all_between lo hi xs" "0 \<le> f" "f \<le> 1" "i < length xs" "j < length xs"
  shows "all_between lo hi (xs[i := (1 - f) * xs ! i + f * xs ! j])"
proof -
  have "lo \<le> (1 - f) * xs ! i + f * xs ! j" "(1 - f) * xs ! i + f * xs ! j \<le> hi"
    using convex_bounds[OF assms(2,3), of lo "xs ! i" hi "xs ! j"]
      all_between_nth[OF assms(1,4)] all_between_nth[OF assms(1,5)] by simp_all
  then show ?thesis using assms(1) by (rule all_between_update[rotated])
qed

lemma all_between_sweep:
  assumes "0 \<le> f" "f \<le> 1" "all_between lo hi xs"
    and "\<forall>i \<in> set is. g i < length xs \<and> h i < length xs"
  shows "all_between lo hi (fold (\<lambda>i Tn. Tn[g i := (1 - f) * Tn ! (g i) + f * Tn ! (h i)]) is xs)"
  using assms(3,4)
proof (induction "is" arbitrary: xs)
  case Nil
  then show ?case by simp
next
  case (Cons i "is")
  have "all_between lo hi (xs[g i := (1 - f) * xs ! (g i) + f * xs ! (h i)])"
    using Cons.prems assms(1,2) by (intro all_between_mix) simp_all
  then show ?case using Cons.prems by (simp add: Cons.IH)
qed

lemma alpha_bounds:
  assumes "\<not> config_bad c" "0 < mf"
  shows "0 \<le> (mf * dt c) / (mass_node c + mf * dt c)" "(mf * dt c) / (mass_node c + mf * dt c) < 1"
proof -
  have "0 < mf * dt c" using assms validated_bounds(6)[OF assms(1)] by simp
  moreover have "0 < mass_node c" using assms(1) by (rule mass_node_pos)
  ultimately show "0 \<le> (mf * dt c) / (mass_node c + mf * dt c)"
    "(mf * dt c) / (mass_node c + mf * dt c) < 1" by simp_all
qed

lemma frac_bounds:
  assumes "\<not> config_bad c"
  shows "0 \<le> min 1 ((\<bar>mf\<bar> * dt c) / mass_node c)" "min 1 ((\<bar>mf\<bar> * dt c) / mass_node c) \<le> 1"
  using mass_node_pos[OF assms] validated_bounds(6)[OF assms] by simp_all

lemma charge_all_between:
  assumes ok: "\<not> config_bad c" and len: "int (length Tn) = n_nodes c" and mf: "0 < mf"
    and w: "all_between lo hi Tn" and tin: "lo \<le> Tin" "Tin \<le> hi"
  shows "all_between lo hi (charge c mf Tin Tn)"
proof -
  define i_in where "i_in = nat (charge_inlet c)"
  define alpha where "alpha = (mf * dt c) / (mass_node c + mf * dt c)"
  define frac where "frac = min 1 ((mf * dt c) / mass_node c)"
  define Tn1 where "Tn1 = Tn[i_in := (1 - alpha) * Tn ! i_in + alpha * Tin]"
  have n: "length Tn = nat (n_nodes c)" using len by auto
  have iin: "i_in < length Tn" using validated_bounds(8,9)[OF ok] n by (simp add: i_in_def)
  have a: "0 \<le> alpha" "alpha \<le> 1" using alpha_bounds[OF ok mf] by (simp_all add: alpha_def)
  have f: "0 \<le> frac" "frac \<le> 1" using frac_bounds[OF ok, of mf] mf by (simp_all add: frac_def)
  have w1: "all_between lo hi Tn1"
    unfolding Tn1_def using all_between_nth[OF w iin] a tin
    by (intro all_between_update[OF w] convex_bounds) simp_all
  have "all_between lo hi (fold (\<lambda>i Tn. Tn[i + 1 := (1 - frac) * Tn ! (i + 1) + frac * Tn ! i])
                      [i_in ..< nat (n_nodes c - 1)] Tn1)"
  proof -
    have idx: "\<forall>i \<in> set [i_in ..< nat (n_nodes c - 1)]. i + 1 < length Tn1 \<and> i < length Tn1"
      using n by (auto simp: Tn1_def)
    show ?thesis
      using all_between_sweep[OF f w1, where g = "\<lambda>i. i + 1" and h = "\<lambda>i. i", OF idx] .
  qed
  then show ?thesis using w1
    unfolding charge_def Let_def i_in_def[symmetric] alpha_def[symmetric] frac_def[symmetric] Tn1_def[symmetric]
    by simp
qed

lemma discharge_all_between:
  assumes ok: "\<not> config_bad c" and len: "int (length Tn) = n_nodes c"
    and out: "0 \<le> discharge_outlet c" "discharge_outlet c < n_nodes c"
    and w: "all_between lo hi Tn"
  shows "all_between lo hi (discharge c mf Tn)"
proof -
  define i_out where "i_out = nat (discharge_outlet c)"
  define frac where "frac = min 1 ((\<bar>mf\<bar> * dt c) / mass_node c)"
  have n: "length Tn = nat (n_nodes c)" "2 \<le> length Tn"
    using len validated_bounds(1)[OF ok] by auto
  have io: "i_out < length Tn" using out n by (simp add: i_out_def)
  have f: "0 \<le> frac" "frac \<le> 1" using frac_bounds[OF ok, of mf] by (simp_all add: frac_def)
  have top: "all_between lo hi (fold (\<lambda>i Tn. Tn[i := (1 - frac) * Tn ! i + frac * Tn ! (i - 1)])
                   (rev [1 ..< i_out])
                   (Tn[i_out := (1 - frac) * Tn ! i_out + frac * Tn ! (i_out - 1)]))"
  proof -
    let ?T1 = "Tn[i_out := (1 - frac) * Tn ! i_out + frac * Tn ! (i_out - 1)]"
    have w1: "all_between lo hi ?T1"
      using io by (intro all_between_mix[OF w f]) simp_all
    have idx: "\<forall>i \<in> set (rev [1 ..< i_out]). i < length ?T1 \<and> i - 1 < length ?T1"
      using io by auto
    show ?thesis
      using all_between_sweep[OF f w1, where g = "\<lambda>i. i" and h = "\<lambda>i. i - 1", OF idx] .
  qed
  have bot: "all_between lo hi (fold (\<lambda>i Tn. Tn[i := (1 - frac) * Tn ! i + frac * Tn ! (i + 1)])
                   [0 ..< nat (n_nodes c - 2)]
                   (Tn[i_out := (1 - frac) * Tn ! i_out + frac * Tn ! (i_out + 1)]))"
    if "i_out = 0"
  proof -
    let ?T1 = "Tn[i_out := (1 - frac) * Tn ! i_out + frac * Tn ! (i_out + 1)]"
    have w1: "all_between lo hi ?T1"
      using io n that by (intro all_between_mix[OF w f]) simp_all
    have idx: "\<forall>i \<in> set [0 ..< nat (n_nodes c - 2)]. i < length ?T1 \<and> i + 1 < length ?T1"
      using n by auto
    show ?thesis
      using all_between_sweep[OF f w1, where g = "\<lambda>i. i" and h = "\<lambda>i. i + 1", OF idx] .
  qed
  have "i_out = 0" if "\<not> 0 < discharge_outlet c" using that out by (simp add: i_out_def)
  then show ?thesis using top bot w
    unfolding discharge_def Let_def i_out_def[symmetric] frac_def[symmetric]
    by auto
qed

lemma all_between_Min_Max: "all_between (Min (set xs)) (Max (set xs)) xs"
  by (simp add: all_between_def)

lemma all_between_mono:
  "all_between lo hi xs \<Longrightarrow> lo' \<le> lo \<Longrightarrow> hi \<le> hi' \<Longrightarrow> all_between lo' hi' xs"
  by (fastforce simp: all_between_def)

lemma advect_hull:
  assumes ok: "\<not> config_bad c" and len: "int (length Tn) = n_nodes c"
    and out: "0 \<le> discharge_outlet c" "discharge_outlet c < n_nodes c"
  shows "0 < mf \<Longrightarrow> all_between (min (Min (set Tn)) Tin) (max (Max (set Tn)) Tin) (advect c mf Tin Tn)"
    and "mf \<le> 0 \<Longrightarrow> all_between (Min (set Tn)) (Max (set Tn)) (advect c mf Tin Tn)"
proof -
  assume mf: "0 < mf"
  have "all_between (min (Min (set Tn)) Tin) (max (Max (set Tn)) Tin) Tn"
    by (rule all_between_mono[OF all_between_Min_Max]) simp_all
  then have "all_between (min (Min (set Tn)) Tin) (max (Max (set Tn)) Tin) (charge c mf Tin Tn)"
    by (intro charge_all_between[OF ok len mf]) simp_all
  then show "all_between (min (Min (set Tn)) Tin) (max (Max (set Tn)) Tin) (advect c mf Tin Tn)"
    using mf by (simp add: advect_def)
next
  assume mf: "mf \<le> 0"
  show "all_between (Min (set Tn)) (Max (set Tn)) (advect c mf Tin Tn)"
    using discharge_all_between[OF ok len out all_between_Min_Max, of mf] all_between_Min_Max[of Tn] mf
    by (simp add: advect_def)
qed

text \<open>
  C10, as amended: in exact real arithmetic, for a validated configuration with \<open>ua_loss = 0\<close> and \<open>k_cond = 0\<close>, every node of
  row \<open>t + 1\<close> lies between \<open>min (min\<^sub>j T[t][j]) Tin_charge[t]\<close> and
  \<open>max (max\<^sub>j T[t][j]) Tin_charge[t]\<close> when \<open>m_flow[t] > 0\<close>, and between
  \<open>min\<^sub>j T[t][j]\<close> and \<open>max\<^sub>j T[t][j]\<close> when \<open>m_flow[t] \<le> 0\<close>; moreover
  \<open>\<alpha> = m * dt / (mass_node + m * dt)\<close> lies in \<open>[0, 1)\<close> when charging and
  \<open>frac = min 1 (|m| * dt / mass_node)\<close> lies in \<open>[0, 1]\<close>.
\<close>

theorem step_within_hull:
  assumes "fst (validate c) = None" and "ua_loss c = 0" and "k_cond c = 0"
    and "lens_ok c Tin mf Ta T0"
  shows "\<exists>out. simulate_stratified_tank c Tin mf Ta T0 = Inr out
     \<and> (\<forall>t < nat (n_steps c). \<forall>i < nat (n_nodes c).
          (0 < mf ! t \<longrightarrow>
              min (Min (set (T_hist out ! t))) (Tin ! t) \<le> T_hist out ! (t + 1) ! i
            \<and> T_hist out ! (t + 1) ! i \<le> max (Max (set (T_hist out ! t))) (Tin ! t)
            \<and> 0 \<le> (mf ! t * dt c) / (mass_node c + mf ! t * dt c)
            \<and> (mf ! t * dt c) / (mass_node c + mf ! t * dt c) < 1)
        \<and> (mf ! t \<le> 0 \<longrightarrow>
              Min (set (T_hist out ! t)) \<le> T_hist out ! (t + 1) ! i
            \<and> T_hist out ! (t + 1) ! i \<le> Max (set (T_hist out ! t)))
        \<and> 0 \<le> min 1 ((\<bar>mf ! t\<bar> * dt c) / mass_node c)
        \<and> min 1 ((\<bar>mf ! t\<bar> * dt c) / mass_node c) \<le> 1)"
proof -
  have ok: "\<not> config_bad c" using assms(1) by (simp add: validate_ok)
  let ?c = "snd (validate c)"
  let ?T = "fst (time_march ?c Tin mf Ta T0)"
  note rc = run_config[OF ok]
  have off: "\<not> 0 < ua_node ?c" "\<not> 0 < G_cond ?c"
    using assms(2,3) ok by (simp_all add: rc ua_node_pos_iff G_cond_pos_iff)
  have n0: "int (length T0) = n_nodes c" "2 \<le> length T0"
    using assms(4) validated_bounds(1)[OF ok] by (auto simp: lens_ok_def)
  have out: "0 \<le> discharge_outlet ?c" "discharge_outlet ?c < n_nodes ?c"
    using validated_bounds(10,11)[OF ok] by (simp_all add: rc)
  have body: "(0 < mf ! t \<longrightarrow>
              min (Min (set (?T ! t))) (Tin ! t) \<le> ?T ! (t + 1) ! i
            \<and> ?T ! (t + 1) ! i \<le> max (Max (set (?T ! t))) (Tin ! t)
            \<and> 0 \<le> (mf ! t * dt c) / (mass_node c + mf ! t * dt c)
            \<and> (mf ! t * dt c) / (mass_node c + mf ! t * dt c) < 1)
        \<and> (mf ! t \<le> 0 \<longrightarrow>
              Min (set (?T ! t)) \<le> ?T ! (t + 1) ! i
            \<and> ?T ! (t + 1) ! i \<le> Max (set (?T ! t)))
        \<and> 0 \<le> min 1 ((\<bar>mf ! t\<bar> * dt c) / mass_node c)
        \<and> min 1 ((\<bar>mf ! t\<bar> * dt c) / mass_node c) \<le> 1"
    if t: "t < nat (n_steps c)" and i: "i < nat (n_nodes c)" for t i
  proof -
    let ?row = "row_at ?c Tin mf Ta T0 t"
    have r: "?T ! t = ?row" "?T ! (t + 1) = advect ?c (mf ! t) (Tin ! t) ?row"
      using t march_result(3)[of t ?c Tin mf Ta T0] march_result(3)[of "Suc t" ?c Tin mf Ta T0] off
      by (simp_all add: rc step_no_loss_no_cond)
    have lr: "int (length ?row) = n_nodes ?c" using n0 by (simp add: length_row_at rc)
    have li: "i < length (advect ?c (mf ! t) (Tin ! t) ?row)"
      using i lr by (simp add: length_advect rc)
    note h = advect_hull[OF rc(1) lr out, of "mf ! t" "Tin ! t"]
    have 1: "min (Min (set ?row)) (Tin ! t) \<le> advect ?c (mf ! t) (Tin ! t) ?row ! i
        \<and> advect ?c (mf ! t) (Tin ! t) ?row ! i \<le> max (Max (set ?row)) (Tin ! t)" if "0 < mf ! t"
      using all_between_nth[OF h(1)[OF that] li] .
    have 2: "Min (set ?row) \<le> advect ?c (mf ! t) (Tin ! t) ?row ! i
        \<and> advect ?c (mf ! t) (Tin ! t) ?row ! i \<le> Max (set ?row)" if "mf ! t \<le> 0"
      using all_between_nth[OF h(2)[OF that] li] .
    show ?thesis
      unfolding r using 1 2 alpha_bounds[OF ok, of "mf ! t"] frac_bounds[OF ok, of "mf ! t"]
      by simp
  qed
  show ?thesis
    using ok assms(4) body by (simp add: simulate_ok)
qed


text \<open>One charging step of a two-node tank at 20 and 40 with inlet temperature 50.\<close>

theorem step_within_hull_witness:
  "fst (validate (unit_tank 2 1 0 0 0 (- 1))) = None
   \<and> ua_loss (unit_tank 2 1 0 0 0 (- 1)) = 0 \<and> k_cond (unit_tank 2 1 0 0 0 (- 1)) = 0
   \<and> lens_ok (unit_tank 2 1 0 0 0 (- 1)) [50] [1 / 4] [0] [20, 40]
   \<and> (\<exists>out. simulate_stratified_tank (unit_tank 2 1 0 0 0 (- 1)) [50] [1 / 4] [0] [20, 40] = Inr out
         \<and> 20 \<le> T_hist out ! 1 ! 0 \<and> T_hist out ! 1 ! 0 \<le> 50
         \<and> 20 \<le> T_hist out ! 1 ! 1 \<and> T_hist out ! 1 ! 1 \<le> 50)"
proof -
  let ?c = "unit_tank 2 1 0 0 0 (- 1)"
  have a: "fst (validate ?c) = None" by (simp add: unit_tank_ok)
  have b: "ua_loss ?c = 0" "k_cond ?c = 0" by (simp_all add: unit_tank_fields)
  have d: "lens_ok ?c [50] [1 / 4] [0] [20, 40]" by (simp add: lens_ok_def unit_tank_fields)
  let ?mf = "[1 / 4 :: real]" and ?Tin = "[50 :: real]"
  from step_within_hull[OF a b d] obtain out where
    oh: "simulate_stratified_tank ?c [50] [1 / 4] [0] [20, 40] = Inr out
     \<and> (\<forall>t < nat (n_steps ?c). \<forall>i < nat (n_nodes ?c).
          (0 < ?mf ! t \<longrightarrow>
              min (Min (set (T_hist out ! t))) (?Tin ! t) \<le> T_hist out ! (t + 1) ! i
            \<and> T_hist out ! (t + 1) ! i \<le> max (Max (set (T_hist out ! t))) (?Tin ! t)
            \<and> 0 \<le> (?mf ! t * dt ?c) / (mass_node ?c + ?mf ! t * dt ?c)
            \<and> (?mf ! t * dt ?c) / (mass_node ?c + ?mf ! t * dt ?c) < 1)
        \<and> (?mf ! t \<le> 0 \<longrightarrow>
              Min (set (T_hist out ! t)) \<le> T_hist out ! (t + 1) ! i
            \<and> T_hist out ! (t + 1) ! i \<le> Max (set (T_hist out ! t)))
        \<and> 0 \<le> min 1 ((\<bar>?mf ! t\<bar> * dt ?c) / mass_node ?c)
        \<and> min 1 ((\<bar>?mf ! t\<bar> * dt ?c) / mass_node ?c) \<le> 1)" ..
  note o = oh[THEN conjunct1] and h = oh[THEN conjunct2]
  have r0: "T_hist out ! 0 = [20, 40]" using simulate_first_row[OF o] .
  have "20 \<le> T_hist out ! 1 ! i \<and> T_hist out ! 1 ! i \<le> 50" if "i < 2" for i
    using h[THEN spec, of 0, THEN mp, THEN spec, of i] that r0
    by (simp add: unit_tank_fields)
  then have "20 \<le> T_hist out ! 1 ! 0 \<and> T_hist out ! 1 ! 0 \<le> 50
         \<and> 20 \<le> T_hist out ! 1 ! 1 \<and> T_hist out ! 1 ! 1 \<le> 50"
    by simp
  then show ?thesis using a b d o by simp
qed

section \<open>Conduction\<close>

text \<open>
  For a row of at least two nodes the three assignments to \<^verbatim>\<open>dT_cond\<close> hit disjoint
  positions: the result is the bottom delta, the interior deltas and the top delta, in
  this order. The interior stencil terms telescope, so the deltas of one step add up to 0.
\<close>

lemma dT_cond_eq:
  assumes "2 \<le> length Tn"
  shows "dT_cond c Tn =
     (G_cond c * (Tn ! 1 - Tn ! 0) * dt c) / (mass_node c * cp c)
     # map (\<lambda>(lo, mid, up).
                        (G_cond c * ((lo - mid) + (up - mid)) * dt c) / (mass_node c * cp c))
                      (zip (take (length Tn - 2) Tn) (zip (drop 1 (take (length Tn - 1) Tn)) (drop 2 Tn)))
     @ [(G_cond c * (Tn ! (length Tn - 2) - Tn ! (length Tn - 1)) * dt c) / (mass_node c * cp c)]"
proof -
  obtain k where n: "length Tn = Suc (Suc k)"
    using assms by (metis Suc_le_D numeral_2_eq_2 Suc_le_mono)
  define a where "a = (G_cond c * (Tn ! 1 - Tn ! 0) * dt c) / (mass_node c * cp c)"
  define b where "b = (G_cond c * (Tn ! (length Tn - 2) - Tn ! (length Tn - 1)) * dt c) / (mass_node c * cp c)"
  define interior where "interior = map (\<lambda>(lo, mid, up).
                        (G_cond c * ((lo - mid) + (up - mid)) * dt c) / (mass_node c * cp c))
                      (zip (take (length Tn - 2) Tn) (zip (drop 1 (take (length Tn - 1) Tn)) (drop 2 Tn)))"
  have li: "length interior = k" by (simp add: interior_def n)
  have d1: "(replicate (length Tn) (0::real))[0 := a] = a # replicate k 0 @ [0]"
    by (simp add: n replicate_append_same)
  have d2: "take 1 (a # replicate k 0 @ [0]) @ interior @ drop (length Tn - 1) (a # replicate k 0 @ [0])
           = a # interior @ [0]"
    by (simp add: n)
  have d3: "(a # interior @ [0])[length Tn - 1 := b] = a # interior @ [b]"
    by (simp add: n li list_update_append)
  show ?thesis
    unfolding dT_cond_def Let_def a_def[symmetric] b_def[symmetric] interior_def[symmetric] d1 d2 d3
    by (rule refl)
qed

lemma telescope:
  fixes x :: "nat \<Rightarrow> real"
  shows "(\<Sum>i = 0 ..< m. (x i - x (i + 1)) + (x (i + 2) - x (i + 1))) = (x 0 - x m) + (x (m + 1) - x 1)"
  by (induction m) (simp_all add: algebra_simps)

lemma sum_list_scaled:
  fixes g :: "'a \<Rightarrow> real"
  shows "sum_list (map (\<lambda>p. (G * g p * d) / mc) ps) = (G * sum_list (map g ps) * d) / mc"
  by (induction ps) (simp_all add: algebra_simps add_divide_distrib)

lemma interior_sum:
  assumes "2 \<le> length Tn"
  shows "sum_list (map (\<lambda>(lo, mid, up). (lo - mid) + (up - mid))
            (zip (take (length Tn - 2) Tn) (zip (drop 1 (take (length Tn - 1) Tn)) (drop 2 Tn))))
         = (Tn ! 0 - Tn ! (length Tn - 2)) + (Tn ! (length Tn - 1) - Tn ! 1 :: real)"
proof -
  obtain k where n: "length Tn = Suc (Suc k)"
    using assms by (metis Suc_le_D numeral_2_eq_2 Suc_le_mono)
  let ?zs = "zip (take (length Tn - 2) Tn) (zip (drop 1 (take (length Tn - 1) Tn)) (drop 2 Tn))"
  have lz: "length ?zs = k" by (simp add: n)
  have nz: "?zs ! i = (Tn ! i, Tn ! (i + 1), Tn ! (i + 2))" if "i < k" for i
    using that by (simp add: n)
  have "sum_list (map (\<lambda>(lo, mid, up). (lo - mid) + (up - mid)) ?zs)
      = (\<Sum>i = 0 ..< k. (\<lambda>(lo, mid, up). (lo - mid) + (up - mid)) (?zs ! i))"
    using lz by (simp add: sum_list_sum_nth)
  also have "\<dots> = (\<Sum>i = 0 ..< k. (Tn ! i - Tn ! (i + 1)) + (Tn ! (i + 2) - Tn ! (i + 1)))"
  proof (rule sum.cong)
    fix i assume "i \<in> {0 ..< k}"
    then have "i < k" by simp
    show "(\<lambda>(lo, mid, up). (lo - mid) + (up - mid)) (?zs ! i)
            = (Tn ! i - Tn ! (i + 1)) + (Tn ! (i + 2) - Tn ! (i + 1))"
      unfolding nz[OF \<open>i < k\<close>] by (simp only: prod.case)
  qed (rule refl)
  also have "\<dots> = (Tn ! 0 - Tn ! k) + (Tn ! (k + 1) - Tn ! 1)"
    by (rule telescope)
  finally show ?thesis by (simp add: n)
qed

lemma stencil_cancel:
  fixes G :: real
  shows "(G * (x1 - x0) * d) / mc
          + ((G * ((x0 - p) + (q - x1)) * d) / mc + (G * (p - q) * d) / mc) = 0"
proof (cases "mc = 0")
  case True
  then show ?thesis by simp
next
  case False
  then show ?thesis by (simp add: field_simps)
qed

lemma sum_dT_cond:
  assumes "2 \<le> length Tn"
  shows "sum_list (dT_cond c Tn) = 0"
proof -
  let ?zs = "zip (take (length Tn - 2) Tn) (zip (drop 1 (take (length Tn - 1) Tn)) (drop 2 Tn))"
  let ?g = "\<lambda>(lo, mid, up). (lo - mid) + (up - mid) :: real"
  have m: "map (\<lambda>(lo, mid, up). (G_cond c * ((lo - mid) + (up - mid)) * dt c) / (mass_node c * cp c)) ?zs
      = map (\<lambda>p. (G_cond c * ?g p * dt c) / (mass_node c * cp c)) ?zs"
    by (rule map_cong) (auto simp only: prod.case)
  have S: "sum_list (map (\<lambda>p. (G_cond c * ?g p * dt c) / (mass_node c * cp c)) ?zs)
      = (G_cond c * ((Tn ! 0 - Tn ! (length Tn - 2)) + (Tn ! (length Tn - 1) - Tn ! 1)) * dt c)
          / (mass_node c * cp c)"
    by (simp only: sum_list_scaled interior_sum[OF assms])
  show ?thesis
    unfolding dT_cond_eq[OF assms] m
    by (simp only: sum_list.Cons sum_list_append sum_list.Nil S add_0_right stencil_cancel)
qed

lemma sum_conduction:
  assumes "2 \<le> length Tn"
  shows "sum_list (conduction c Tn) = sum_list Tn"
proof -
  have l: "length (dT_cond c Tn) = length Tn" using assms by (rule length_dT_cond)
  have "sum_list (map (\<lambda>(x, d). x + d) (zip xs ds)) = sum_list xs + sum_list ds"
    if "length xs = length ds" for xs ds :: "real list"
    using that by (induction xs ds rule: list_induct2) simp_all
  from this[OF l[symmetric]] show ?thesis
    by (simp add: conduction_def sum_dT_cond[OF assms])
qed

text \<open>
  C3: for a validated configuration with \<open>ua_loss = 0\<close>, \<open>k_cond > 0\<close> and a mass-flow
  series that is zero throughout, the run succeeds and every step conserves the total
  thermal energy: the sum over the nodes of \<open>mass_node * T[t + 1][i]\<close> equals the sum over
  the nodes of \<open>mass_node * T[t][i]\<close>, for every \<open>t < n_steps\<close>, in exact arithmetic.
\<close>

theorem conduction_conserves_energy:
  assumes "fst (validate c) = None" and "ua_loss c = 0" and "0 < k_cond c"
    and "lens_ok c Tin mf Ta T0" and "\<forall>x \<in> set mf. x = 0"
  shows "\<exists>out. simulate_stratified_tank c Tin mf Ta T0 = Inr out
     \<and> (\<forall>t < nat (n_steps c).
           (\<Sum>x\<leftarrow>T_hist out ! (t + 1). mass_node c * x) = (\<Sum>x\<leftarrow>T_hist out ! t. mass_node c * x))"
proof -
  have ok: "\<not> config_bad c" using assms(1) by (simp add: validate_ok)
  let ?c = "snd (validate c)"
  let ?T = "fst (time_march ?c Tin mf Ta T0)"
  note rc = run_config[OF ok]
  have ua: "\<not> 0 < ua_node ?c" using assms(2) ok by (simp add: rc ua_node_pos_iff)
  have g: "0 < G_cond ?c" using assms(3) ok by (simp add: rc G_cond_pos_iff)
  have n0: "2 \<le> length T0" "length mf = nat (n_steps c)"
    using assms(4) validated_bounds(1)[OF ok] by (auto simp: lens_ok_def)
  have body: "(\<Sum>x\<leftarrow>?T ! (t + 1). mass_node c * x) = (\<Sum>x\<leftarrow>?T ! t. mass_node c * x)"
    if t: "t < nat (n_steps c)" for t
  proof -
    let ?row = "row_at ?c Tin mf Ta T0 t"
    have mf0: "mf ! t = 0" using assms(5) t n0 by simp
    have lr: "2 \<le> length ?row" using n0 by (simp add: length_row_at)
    have r: "?T ! t = ?row" "?T ! (t + 1) = conduction ?c ?row"
      using t march_result(3)[of t ?c Tin mf Ta T0] march_result(3)[of "Suc t" ?c Tin mf Ta T0] ua g mf0
      by (simp_all add: rc step_def advect_def)
    show ?thesis
      unfolding r using sum_conduction[OF lr, of ?c] by (simp add: sum_list_const_mult)
  qed
  show ?thesis
    using ok assms(4) body by (simp add: simulate_ok)
qed

text \<open>
  One conduction step of a three-node tank at 10, 20, 60 with \<open>mass_node = 1 / 3\<close>: the
  energy sum stays at 30.
\<close>

theorem conduction_conserves_energy_witness:
  "fst (validate (unit_tank 3 1 0 (1 / 18) 0 (- 1))) = None
   \<and> ua_loss (unit_tank 3 1 0 (1 / 18) 0 (- 1)) = 0 \<and> 0 < k_cond (unit_tank 3 1 0 (1 / 18) 0 (- 1))
   \<and> lens_ok (unit_tank 3 1 0 (1 / 18) 0 (- 1)) [60] [0] [5] [10, 20, 60]
   \<and> (\<exists>out. simulate_stratified_tank (unit_tank 3 1 0 (1 / 18) 0 (- 1)) [60] [0] [5] [10, 20, 60] = Inr out
         \<and> (\<Sum>x\<leftarrow>T_hist out ! 1. mass_node (unit_tank 3 1 0 (1 / 18) 0 (- 1)) * x) = 30)"
proof -
  let ?c = "unit_tank 3 1 0 (1 / 18) 0 (- 1)"
  have a: "fst (validate ?c) = None" by (simp add: unit_tank_ok)
  have b: "ua_loss ?c = 0" "0 < k_cond ?c" by (simp_all add: unit_tank_fields)
  have d: "lens_ok ?c [60] [0] [5] [10, 20, 60]" by (simp add: lens_ok_def unit_tank_fields)
  have e: "\<forall>x \<in> set [0::real]. x = 0" by simp
  from conduction_conserves_energy[OF a b d e] obtain out where
    oh: "simulate_stratified_tank ?c [60] [0] [5] [10, 20, 60] = Inr out
     \<and> (\<forall>t < nat (n_steps ?c).
           (\<Sum>x\<leftarrow>T_hist out ! (t + 1). mass_node ?c * x) = (\<Sum>x\<leftarrow>T_hist out ! t. mass_node ?c * x))" ..
  note o = oh[THEN conjunct1] and h = oh[THEN conjunct2, unfolded unit_tank_fields]
  have r0: "T_hist out ! 0 = [10, 20, 60]" using simulate_first_row[OF o] .
  have "(\<Sum>x\<leftarrow>T_hist out ! 1. mass_node ?c * x) = 30"
    using h[THEN spec, of 0] r0 by (simp add: unit_tank_mass)
  then show ?thesis using a b d o by simp
qed

section \<open>Running the model on data\<close>

text \<open>The definitions needed to run the exact model on concrete data.\<close>

lemmas run_defs = validate_eq config_bad_def normalized_outlet_def check_len_def
  time_march_def march_body_def step_def side_loss_def loss_power_def conduction_def dT_cond_def
  advect_def charge_def discharge_def ua_node_def G_cond_def mass_node_def vol_node_def
  area_cross_def dz_def unit_tank_def Let_def

section \<open>Rounded arithmetic\<close>

text \<open>With the identity for \<open>rnd\<close> the rounded step is the exact step.\<close>

lemma geometry_rnd_exact:
  "dz_rnd (\<lambda>x. x) c = dz c" "area_cross_rnd (\<lambda>x. x) c = area_cross c"
  "vol_node_rnd (\<lambda>x. x) c = vol_node c" "mass_node_rnd (\<lambda>x. x) c = mass_node c"
  "ua_node_rnd (\<lambda>x. x) c = ua_node c" "G_cond_rnd (\<lambda>x. x) c = G_cond c"
  unfolding dz_rnd_def area_cross_rnd_def vol_node_rnd_def mass_node_rnd_def ua_node_rnd_def
    G_cond_rnd_def dz_def area_cross_def vol_node_def mass_node_def ua_node_def G_cond_def
  by (rule refl)+

lemma side_loss_rnd_exact: "side_loss_rnd (\<lambda>x. x) c a xs = side_loss c a xs"
  unfolding side_loss_rnd_def side_loss_def geometry_rnd_exact by (rule refl)

lemma conduction_rnd_exact: "conduction_rnd (\<lambda>x. x) c xs = conduction c xs"
  unfolding conduction_rnd_def dT_cond_rnd_def conduction_def dT_cond_def geometry_rnd_exact
  by (rule refl)

lemma advect_rnd_exact: "advect_rnd (\<lambda>x. x) c m a xs = advect c m a xs"
  unfolding advect_rnd_def charge_rnd_def discharge_rnd_def advect_def charge_def discharge_def
    geometry_rnd_exact
  by (rule refl)

lemma step_rnd_exact: "step_rnd (\<lambda>x. x) c a m b xs = step c a m b xs"
  unfolding step_rnd_def step_def side_loss_rnd_exact conduction_rnd_exact advect_rnd_exact
    geometry_rnd_exact
  by (rule refl)

lemma norm_exp_unfold:
  "0 < n \<Longrightarrow> norm_exp n y e =
     (if 2 \<le> y then norm_exp (n - 1) (y / 2) (e + 1)
      else if y < 1 then norm_exp (n - 1) (2 * y) (e - 1)
      else e)"
  by (cases n) simp_all

lemmas b64_eval = b64_def norm_exp_unfold round_even_def pow2_def

text \<open>
  The roundings that occur in the two binary64 runs below, each evaluated from the
  definition of \<open>b64\<close>.
\<close>

lemma b64_values:
  "b64 (1 / 2) = 1 / 2"
  "b64 1 = 1"
  "b64 (1 / 8) = 1 / 8"
  "b64 (5 / 8) = 5 / 8"
  "b64 (1 / 5) = 3602879701896397 / 18014398509481984"
  "b64 (14411518807585587 / 18014398509481984) = 3602879701896397 / 4503599627370496"
  "b64 (10808639105689191 / 4503599627370496) = 1351079888211149 / 562949953421312"
  "b64 (10808639105689191 / 18014398509481984) = 1351079888211149 / 2251799813685248"
  "b64 (6755399441055745 / 2251799813685248) = 6755399441055745 / 2251799813685248"
  "b64 (1 / 4) = 1 / 4"
  "b64 (3 / 4) = 3 / 4"
  "b64 (9 / 4) = 9 / 4"
  "b64 (6755399441055745 / 9007199254740992) = 6755399441055745 / 9007199254740992"
  "b64 (27021597764222977 / 9007199254740992) = 3"
  "b64 (1 / 16) = 1 / 16"
  "b64 (9 / 16) = 9 / 16"
  "b64 (1 / 9) = 2001599834386887 / 18014398509481984"
  "b64 (16012798675095097 / 18014398509481984) = 2001599834386887 / 2251799813685248"
  "b64 (18028808536579259596664471785017 / 20282409603651670423947251286016) = 8006399337547547 / 9007199254740992"
  "b64 (2001599834386887 / 18014398509481984) = 2001599834386887 / 18014398509481984"
  "b64 (18014398509481981 / 18014398509481984) = 4503599627370495 / 4503599627370496"
  "b64 (7 / 8) = 7 / 8"
  "b64 (63050394783186937 / 72057594037927936) = 7881299347898367 / 9007199254740992"
  "b64 (4503599627370495 / 36028797018963968) = 4503599627370495 / 36028797018963968"
  "b64 (36028797018963963 / 36028797018963968) = 9007199254740991 / 9007199254740992"
  by (simp_all add: b64_eval Let_def)

lemmas step_rnd_eval = step_rnd_def advect_rnd_def charge_rnd_def discharge_rnd_def
  conduction_rnd_def dT_cond_rnd_def side_loss_rnd_def ua_node_rnd_def G_cond_rnd_def
  mass_node_rnd_def vol_node_rnd_def area_cross_rnd_def dz_rnd_def unit_tank_def Let_def
  b64_values

text \<open>
  C10 as stated, for the arithmetic of the source, does not hold. A valid two-node tank
  without loss and conduction, both nodes and the inlet at 3, \<open>m_flow = 1 / 8\<close>: in
  binary64 \<open>\<alpha>\<close> is the rounded \<open>1 / 5\<close>, the rounded \<open>1 - \<alpha>\<close> and \<open>\<alpha>\<close> add up to more
  than 1, and the inlet mix takes node 0 to \<open>3 + 2 ^ - 51\<close>, above the maximum 3 of the row
  and the inlet temperature. In exact arithmetic the same step leaves the row at 3.
\<close>

theorem step_leaves_hull_binary64:
  "fst (validate (unit_tank 2 1 0 0 0 1)) = None
   \<and> ua_loss (unit_tank 2 1 0 0 0 1) = 0 \<and> k_cond (unit_tank 2 1 0 0 0 1) = 0
   \<and> step_rnd b64 (unit_tank 2 1 0 0 0 1) 3 (1 / 8) 0 [3, 3] = [3 + 1 / 2 ^ 51, 3]
   \<and> \<not> (step_rnd b64 (unit_tank 2 1 0 0 0 1) 3 (1 / 8) 0 [3, 3] ! 0 \<le> max (Max (set [3, 3])) 3)
   \<and> step (unit_tank 2 1 0 0 0 1) 3 (1 / 8) 0 [3, 3] = [3, 3]"
proof -
  have r: "step_rnd b64 (unit_tank 2 1 0 0 0 1) 3 (1 / 8) 0 [3, 3] = [3 + 1 / 2 ^ 51, 3]"
    by (simp add: step_rnd_eval)
  have e: "step (unit_tank 2 1 0 0 0 1) 3 (1 / 8) 0 [3, 3] = [3, 3]"
    by (simp add: run_defs)
  show ?thesis
    unfolding r e by (simp add: unit_tank_ok unit_tank_fields)
qed

section \<open>The charging front\<close>

text \<open>
  With loss factor at most 1 and conduction factor at most \<open>1 / 2\<close> every phase of a
  charging step replaces each node by a combination, with non-negative weights that add up
  to 1, of nodes of the row, the ambient temperature and the inlet temperature. The step
  is then monotone in the row and in the ambient temperature, and it keeps an interval that
  holds the row, the ambient and the inlet temperature.
\<close>

lemma factors_nonneg:
  assumes "\<not> config_bad c"
  shows "0 \<le> loss_factor c" "0 \<le> cond_factor c"
proof -
  have p: "0 < mass_node c" "0 < cp c" "0 < dt c" "0 < height c" "0 < volume c" "2 \<le> n_nodes c"
    using mass_node_pos[OF assms] validated_bounds[OF assms] by simp_all
  have "0 \<le> ua_node c" using p by (simp add: ua_node_def)
  then show "0 \<le> loss_factor c" using p by (simp add: loss_factor_def)
  have "0 \<le> G_cond c" using p by (simp add: G_cond_def area_cross_def dz_def)
  then show "0 \<le> cond_factor c" using p by (simp add: cond_factor_def)
qed

lemma side_loss_convex:
  "side_loss c a xs = map (\<lambda>x. (1 - loss_factor c) * x + loss_factor c * a) xs"
proof -
  have "x - (ua_node c * (x - a) * dt c) / (mass_node c * cp c)
        = (1 - loss_factor c) * x + loss_factor c * a" for x
  proof -
    have "(ua_node c * (x - a) * dt c) / (mass_node c * cp c) = loss_factor c * (x - a)"
      by (simp add: loss_factor_def)
    then show ?thesis by (simp add: algebra_simps)
  qed
  then show ?thesis by (simp add: side_loss_def)
qed

lemma convex_mono:
  fixes f :: real
  assumes "0 \<le> f" "f \<le> 1" "x \<le> y" "a \<le> b"
  shows "(1 - f) * x + f * a \<le> (1 - f) * y + f * b"
proof -
  have "(1 - f) * x \<le> (1 - f) * y" "f * a \<le> f * b"
    using assms by (simp_all add: mult_left_mono)
  then show ?thesis by (rule add_mono)
qed

lemma side_loss_mono:
  assumes "0 \<le> loss_factor c" "loss_factor c \<le> 1" "list_all2 (\<le>) xs ys" "a \<le> b"
  shows "list_all2 (\<le>) (side_loss c a xs) (side_loss c b ys)"
  unfolding side_loss_convex
  using assms(3) convex_mono[OF assms(1,2) _ assms(4)]
  by (simp add: list_all2_map1 list_all2_map2 list_all2_mono)

lemma side_loss_all_between:
  assumes "0 \<le> loss_factor c" "loss_factor c \<le> 1" "all_between lo hi xs" "lo \<le> a" "a \<le> hi"
  shows "all_between lo hi (side_loss c a xs)"
  unfolding side_loss_convex
  using assms(3) convex_bounds[OF assms(1,2) _ _ assms(4,5)]
  by (auto simp: all_between_def)

lemma dT_cond_nth:
  assumes "2 \<le> length xs" "i < length xs"
  shows "dT_cond c xs ! i =
     cond_factor c *
       (if i = 0 then xs ! 1 - xs ! 0
        else if i = length xs - 1 then xs ! (i - 1) - xs ! i
        else (xs ! (i - 1) - xs ! i) + (xs ! (i + 1) - xs ! i))"
proof -
  obtain k where n: "length xs = Suc (Suc k)"
    using assms(1) by (metis Suc_le_D numeral_2_eq_2 Suc_le_mono)
  let ?zs = "zip (take (length xs - 2) xs) (zip (drop 1 (take (length xs - 1) xs)) (drop 2 xs))"
  let ?g = "\<lambda>(lo, mid, up). (G_cond c * ((lo - mid) + (up - mid)) * dt c) / (mass_node c * cp c)"
  have lz: "length ?zs = k" by (simp add: n)
  have nz: "?zs ! j = (xs ! j, xs ! (j + 1), xs ! (j + 2))" if "j < k" for j
    using that by (simp add: n)
  have sc: "(G_cond c * s * dt c) / (mass_node c * cp c) = cond_factor c * s" for s
    by (simp add: cond_factor_def)
  consider "i = 0" | "i = Suc k" | j where "i = Suc j" "j < k"
    using assms(2) n by (cases i) (auto simp: less_Suc_eq)
  then show ?thesis
  proof cases
    case 1
    then show ?thesis unfolding dT_cond_eq[OF assms(1)] by (simp add: sc)
  next
    case 2
    have "(map ?g ?zs @ [(G_cond c * (xs ! (length xs - 2) - xs ! (length xs - 1)) * dt c) / (mass_node c * cp c)]) ! k
        = (G_cond c * (xs ! (length xs - 2) - xs ! (length xs - 1)) * dt c) / (mass_node c * cp c)"
      using lz by (simp add: nth_append)
    then show ?thesis unfolding dT_cond_eq[OF assms(1)] using 2 n by (simp add: sc)
  next
    case 3
    have "(map ?g ?zs @ [(G_cond c * (xs ! (length xs - 2) - xs ! (length xs - 1)) * dt c) / (mass_node c * cp c)]) ! j
        = ?g (?zs ! j)"
      using lz 3(2) by (simp add: nth_append)
    also have "\<dots> = (G_cond c * ((xs ! j - xs ! (j + 1)) + (xs ! (j + 2) - xs ! (j + 1))) * dt c) / (mass_node c * cp c)"
      unfolding nz[OF 3(2)] by (simp only: prod.case)
    finally show ?thesis unfolding dT_cond_eq[OF assms(1)] using 3 n by (simp add: sc)
  qed
qed

lemma conduction_nth:
  assumes "2 \<le> length xs" "i < length xs"
  shows "conduction c xs ! i =
     xs ! i + cond_factor c *
       (if i = 0 then xs ! 1 - xs ! 0
        else if i = length xs - 1 then xs ! (i - 1) - xs ! i
        else (xs ! (i - 1) - xs ! i) + (xs ! (i + 1) - xs ! i))"
  using assms dT_cond_nth[OF assms, of c] length_dT_cond[OF assms(1), of c]
  by (simp add: conduction_def)

lemma two_point:
  fixes r :: real
  assumes "0 \<le> r" "r \<le> 1 / 2" "x \<le> y" "x' \<le> y'"
  shows "x + r * (x' - x) \<le> y + r * (y' - y)"
proof -
  have "(1 - r) * x \<le> (1 - r) * y" "r * x' \<le> r * y'"
    using assms by (simp_all add: mult_left_mono)
  then show ?thesis by (simp add: algebra_simps)
qed

lemma three_point:
  fixes r :: real
  assumes "0 \<le> r" "r \<le> 1 / 2" "x \<le> y" "xl \<le> yl" "xu \<le> yu"
  shows "x + r * ((xl - x) + (xu - x)) \<le> y + r * ((yl - y) + (yu - y))"
proof -
  have "(1 - 2 * r) * x \<le> (1 - 2 * r) * y" "r * xl \<le> r * yl" "r * xu \<le> r * yu"
    using assms by (simp_all add: mult_left_mono)
  then show ?thesis by (simp add: algebra_simps)
qed

lemma conduction_mono:
  assumes r: "0 \<le> cond_factor c" "cond_factor c \<le> 1 / 2"
    and len: "2 \<le> length xs" and le: "list_all2 (\<le>) xs ys"
  shows "list_all2 (\<le>) (conduction c xs) (conduction c ys)"
proof (rule list_all2_all_nthI)
  have l: "length ys = length xs" using le by (simp add: list_all2_lengthD)
  show "length (conduction c xs) = length (conduction c ys)"
    using len l by (simp add: length_conduction)
  fix i assume "i < length (conduction c xs)"
  then have i: "i < length xs" using len by (simp add: length_conduction)
  have p: "xs ! j \<le> ys ! j" if "j < length xs" for j
    using le that by (rule list_all2_nthD)
  have len': "2 \<le> length ys" "i < length ys" using len i l by simp_all
  have i01: "0 < length xs" "1 < length xs" using len by auto
  show "conduction c xs ! i \<le> conduction c ys ! i"
  proof (cases "i = 0")
    case True
    then show ?thesis
      unfolding conduction_nth[OF len i] conduction_nth[OF len']
      using two_point[OF r p[OF i01(1)] p[OF i01(2)]] by simp
  next
    case False
    show ?thesis
    proof (cases "i = length xs - 1")
      case True
      have im: "i - 1 < length xs" using i by simp
      show ?thesis
        unfolding conduction_nth[OF len i] conduction_nth[OF len']
        using two_point[OF r p[OF i] p[OF im]] True False l by simp
    next
      case last: False
      then have ip: "i + 1 < length xs" using i by simp
      have im: "i - 1 < length xs" using i by simp
      show ?thesis
        unfolding conduction_nth[OF len i] conduction_nth[OF len']
        using three_point[OF r p[OF i] p[OF im] p[OF ip]] False last l by simp
    qed
  qed
qed

lemma conduction_all_between:
  assumes r: "0 \<le> cond_factor c" "cond_factor c \<le> 1 / 2"
    and len: "2 \<le> length xs" and b: "all_between lo hi xs"
  shows "all_between lo hi (conduction c xs)"
proof -
  have lo: "list_all2 (\<le>) (replicate (length xs) lo) xs"
    using b by (auto simp: all_between_def list_all2_conv_all_nth)
  have hi: "list_all2 (\<le>) xs (replicate (length xs) hi)"
    using b by (auto simp: all_between_def list_all2_conv_all_nth)
  have const: "conduction c (replicate n v) ! i = v" if "2 \<le> n" "i < n" for n v i
    using that conduction_nth[of "replicate n v" i c] by simp
  have "lo \<le> x \<and> x \<le> hi" if xin: "x \<in> set (conduction c xs)" for x
  proof -
    obtain i where i: "i < length xs" "x = conduction c xs ! i"
      using xin length_conduction[OF len, of c] by (auto simp: in_set_conv_nth)
    have "conduction c (replicate (length xs) lo) ! i \<le> conduction c xs ! i"
      using conduction_mono[OF r _ lo] len i
      by (auto dest!: list_all2_nthD[where p = i] simp: length_conduction)
    moreover have "conduction c xs ! i \<le> conduction c (replicate (length xs) hi) ! i"
      using conduction_mono[OF r len hi] len i
      by (auto dest!: list_all2_nthD[where p = i] simp: length_conduction)
    ultimately show ?thesis using const[OF len i(1)] i(2) by simp
  qed
  then show ?thesis by (simp add: all_between_def)
qed

lemma mix_mono:
  fixes f :: real
  assumes "list_all2 (\<le>) xs ys" "0 \<le> f" "f \<le> 1" "i < length xs" "j < length xs"
  shows "list_all2 (\<le>) (xs[i := (1 - f) * xs ! i + f * xs ! j]) (ys[i := (1 - f) * ys ! i + f * ys ! j])"
proof (rule list_all2_update_cong[OF assms(1)])
  show "(1 - f) * xs ! i + f * xs ! j \<le> (1 - f) * ys ! i + f * ys ! j"
    using convex_mono[OF assms(2,3)] list_all2_nthD[OF assms(1,4)] list_all2_nthD[OF assms(1,5)]
    by simp
qed

lemma sweep_mono:
  fixes f :: real
  assumes "0 \<le> f" "f \<le> 1" "list_all2 (\<le>) xs ys"
    and "\<forall>i \<in> set is. g i < length xs \<and> h i < length xs"
  shows "list_all2 (\<le>)
           (fold (\<lambda>i Tn. Tn[g i := (1 - f) * Tn ! (g i) + f * Tn ! (h i)]) is xs)
           (fold (\<lambda>i Tn. Tn[g i := (1 - f) * Tn ! (g i) + f * Tn ! (h i)]) is ys)"
  using assms(3,4)
proof (induction "is" arbitrary: xs ys)
  case Nil
  then show ?case by simp
next
  case (Cons i "is")
  have "list_all2 (\<le>) (xs[g i := (1 - f) * xs ! (g i) + f * xs ! (h i)])
                        (ys[g i := (1 - f) * ys ! (g i) + f * ys ! (h i)])"
    using Cons.prems assms(1,2) by (intro mix_mono) simp_all
  then show ?case using Cons.prems by (simp add: Cons.IH)
qed

lemma charge_mono:
  assumes ok: "\<not> config_bad c" and len: "int (length xs) = n_nodes c" and mf: "0 < mf"
    and le: "list_all2 (\<le>) xs ys"
  shows "list_all2 (\<le>) (charge c mf Tin xs) (charge c mf Tin ys)"
proof -
  define i_in where "i_in = nat (charge_inlet c)"
  define alpha where "alpha = (mf * dt c) / (mass_node c + mf * dt c)"
  define frac where "frac = min 1 ((mf * dt c) / mass_node c)"
  define X1 where "X1 = xs[i_in := (1 - alpha) * xs ! i_in + alpha * Tin]"
  define Y1 where "Y1 = ys[i_in := (1 - alpha) * ys ! i_in + alpha * Tin]"
  have n: "length xs = nat (n_nodes c)" using len by auto
  have iin: "i_in < length xs" using validated_bounds(8,9)[OF ok] n by (simp add: i_in_def)
  have a: "0 \<le> alpha" "alpha \<le> 1" using alpha_bounds[OF ok mf] by (simp_all add: alpha_def)
  have f: "0 \<le> frac" "frac \<le> 1" using frac_bounds[OF ok, of mf] mf by (simp_all add: frac_def)
  have le1: "list_all2 (\<le>) X1 Y1"
    unfolding X1_def Y1_def
    using convex_mono[OF a list_all2_nthD[OF le iin], of Tin Tin]
    by (intro list_all2_update_cong[OF le]) simp
  have idx: "\<forall>i \<in> set [i_in ..< nat (n_nodes c - 1)]. i + 1 < length X1 \<and> i < length X1"
    using n by (auto simp: X1_def)
  have "list_all2 (\<le>)
      (fold (\<lambda>i Tn. Tn[i + 1 := (1 - frac) * Tn ! (i + 1) + frac * Tn ! i]) [i_in ..< nat (n_nodes c - 1)] X1)
      (fold (\<lambda>i Tn. Tn[i + 1 := (1 - frac) * Tn ! (i + 1) + frac * Tn ! i]) [i_in ..< nat (n_nodes c - 1)] Y1)"
    using sweep_mono[OF f le1, where g = "\<lambda>i. i + 1" and h = "\<lambda>i. i", OF idx] .
  then show ?thesis using le1
    unfolding charge_def Let_def i_in_def[symmetric] alpha_def[symmetric] frac_def[symmetric]
      X1_def[symmetric] Y1_def[symmetric]
    by simp
qed

lemma step_charging_mono:
  assumes ok: "\<not> config_bad c" and st: "loss_factor c \<le> 1" "cond_factor c \<le> 1 / 2"
    and len: "int (length xs) = n_nodes c" and m: "0 < m"
    and le: "list_all2 (\<le>) xs ys" and amb: "0 < ua_node c \<longrightarrow> a \<le> b"
  shows "list_all2 (\<le>) (step c Th m a xs) (step c Th m b ys)"
proof -
  note nn = factors_nonneg[OF ok]
  have n2: "2 \<le> length xs" using len validated_bounds(1)[OF ok] by auto
  define X1 where "X1 = (if 0 < ua_node c then side_loss c a xs else xs)"
  define Y1 where "Y1 = (if 0 < ua_node c then side_loss c b ys else ys)"
  define X2 where "X2 = (if 0 < G_cond c then conduction c X1 else X1)"
  define Y2 where "Y2 = (if 0 < G_cond c then conduction c Y1 else Y1)"
  have l1: "length X1 = length xs" by (simp add: X1_def length_side_loss)
  have le1: "list_all2 (\<le>) X1 Y1"
    unfolding X1_def Y1_def using side_loss_mono[OF nn(1) st(1) le, of a b] le amb by simp
  have l2: "length X2 = length xs" using n2 l1 by (simp add: X2_def length_conduction)
  have le2: "list_all2 (\<le>) X2 Y2"
    unfolding X2_def Y2_def using conduction_mono[OF nn(2) st(2) _ le1] le1 n2 l1 by simp
  have "list_all2 (\<le>) (charge c m Th X2) (charge c m Th Y2)"
    using charge_mono[OF ok _ m le2] l2 len by simp
  then show ?thesis
    using m unfolding step_def Let_def advect_def X1_def[symmetric] Y1_def[symmetric]
      X2_def[symmetric] Y2_def[symmetric]
    by simp
qed

lemma step_charging_all_between:
  assumes ok: "\<not> config_bad c" and st: "loss_factor c \<le> 1" "cond_factor c \<le> 1 / 2"
    and len: "int (length xs) = n_nodes c" and m: "0 < m"
    and b: "all_between lo hi xs" and amb: "0 < ua_node c \<longrightarrow> lo \<le> a \<and> a \<le> hi"
    and tin: "lo \<le> Th" "Th \<le> hi"
  shows "all_between lo hi (step c Th m a xs)"
proof -
  note nn = factors_nonneg[OF ok]
  have n2: "2 \<le> length xs" using len validated_bounds(1)[OF ok] by auto
  define X1 where "X1 = (if 0 < ua_node c then side_loss c a xs else xs)"
  define X2 where "X2 = (if 0 < G_cond c then conduction c X1 else X1)"
  have l1: "length X1 = length xs" by (simp add: X1_def length_side_loss)
  have b1: "all_between lo hi X1"
    unfolding X1_def using side_loss_all_between[OF nn(1) st(1) b, of a] b amb by simp
  have l2: "length X2 = length xs" using n2 l1 by (simp add: X2_def length_conduction)
  have b2: "all_between lo hi X2"
    unfolding X2_def using conduction_all_between[OF nn(2) st(2) _ b1] b1 n2 l1 by simp
  have "all_between lo hi (charge c m Th X2)"
    using charge_all_between[OF ok _ m b2 tin] l2 len by simp
  then show ?thesis
    using m unfolding step_def Let_def advect_def X1_def[symmetric] X2_def[symmetric]
    by simp
qed

lemma charging_rows_bounded:
  assumes ok: "\<not> config_bad c" and st: "loss_factor c \<le> 1" "cond_factor c \<le> 1 / 2"
    and T0: "T0 = replicate (nat (n_nodes c)) Tc" and m: "0 < m" and th: "Tc \<le> Th"
    and mf: "\<forall>t < k. mf ! t = m" and tin: "\<forall>t < k. Tin ! t = Th"
    and amb: "0 < ua_node c \<longrightarrow> (\<forall>t < k. Tc \<le> Ta ! t \<and> Ta ! t \<le> Th)"
  shows "t \<le> k \<Longrightarrow> all_between Tc Th (row_at c Tin mf Ta T0 t)"
proof (induction t)
  case 0
  show ?case using th by (simp add: T0 all_between_def)
next
  case (Suc t)
  have n2: "2 \<le> n_nodes c" using validated_bounds(1)[OF ok] .
  have len: "int (length (row_at c Tin mf Ta T0 t)) = n_nodes c"
    using n2 by (simp add: length_row_at T0)
  have b: "all_between Tc Th (row_at c Tin mf Ta T0 t)" using Suc by simp
  have a: "0 < ua_node c \<longrightarrow> Tc \<le> Ta ! t \<and> Ta ! t \<le> Th" using amb Suc.prems by simp
  have "all_between Tc Th (step c Th m (Ta ! t) (row_at c Tin mf Ta T0 t))"
    using step_charging_all_between[OF ok st len m b a th] by simp
  then show ?case using Suc.prems mf tin by simp
qed

lemma charging_rows_increase:
  assumes ok: "\<not> config_bad c" and st: "loss_factor c \<le> 1" "cond_factor c \<le> 1 / 2"
    and T0: "T0 = replicate (nat (n_nodes c)) Tc" and m: "0 < m" and th: "Tc \<le> Th"
    and mf: "\<forall>t < k. mf ! t = m" and tin: "\<forall>t < k. Tin ! t = Th"
    and amb: "0 < ua_node c \<longrightarrow> (\<forall>t < k. Tc \<le> Ta ! t \<and> Ta ! t \<le> Th)"
    and inc: "0 < ua_node c \<longrightarrow> (\<forall>t. Suc t < k \<longrightarrow> Ta ! t \<le> Ta ! Suc t)"
  shows "t < k \<Longrightarrow> list_all2 (\<le>) (row_at c Tin mf Ta T0 t) (row_at c Tin mf Ta T0 (Suc t))"
proof (induction t)
  case 0
  have n2: "2 \<le> n_nodes c" using validated_bounds(1)[OF ok] .
  have b: "all_between Tc Th (row_at c Tin mf Ta T0 (Suc 0))"
    using charging_rows_bounded[OF ok st T0 m th mf tin amb, of "Suc 0"] 0 by simp
  have l: "length (row_at c Tin mf Ta T0 (Suc 0)) = nat (n_nodes c)"
    using n2 length_row_at[of T0 c Tin mf Ta "Suc 0"] by (simp add: T0)
  have "list_all2 (\<le>) (replicate (nat (n_nodes c)) Tc) (row_at c Tin mf Ta T0 (Suc 0))"
    using b l by (simp add: list_all2_conv_all_nth all_between_def del: row_at.simps)
  then show ?case by (simp add: T0)
next
  case (Suc t)
  have n2: "2 \<le> n_nodes c" using validated_bounds(1)[OF ok] .
  let ?x = "row_at c Tin mf Ta T0 t" and ?y = "row_at c Tin mf Ta T0 (Suc t)"
  have IH: "list_all2 (\<le>) ?x ?y" using Suc by simp
  have len: "int (length ?x) = n_nodes c" using n2 by (simp add: length_row_at T0)
  have a: "0 < ua_node c \<longrightarrow> Ta ! t \<le> Ta ! Suc t" using inc Suc.prems by simp
  have "list_all2 (\<le>) (step c Th m (Ta ! t) ?x) (step c Th m (Ta ! Suc t) ?y)"
    using step_charging_mono[OF ok st len m IH a] .
  moreover have "row_at c Tin mf Ta T0 (Suc t) = step c Th m (Ta ! t) ?x"
    using Suc.prems mf tin by simp
  moreover have "row_at c Tin mf Ta T0 (Suc (Suc t)) = step c Th m (Ta ! Suc t) ?y"
    using Suc.prems mf tin by simp
  ultimately show ?case by (simp del: row_at.simps)
qed

lemma sample_factors:
  "loss_factor (unit_tank nn ns ua k i j) = (if 0 < ua then ua / real_of_int nn else 0) * real_of_int nn"
  "cond_factor (unit_tank nn ns ua k i j) = (if 0 < k then k * real_of_int nn else 0) * real_of_int nn"
  by (simp_all add: loss_factor_def cond_factor_def ua_node_def G_cond_def unit_tank_mass
        unit_tank_fields area_cross_def dz_def)
    (simp_all add: unit_tank_def)

text \<open>
  C7 as stated, for every loss coefficient, every ambient series and the arithmetic of
  the source, does not hold. First, in exact arithmetic: a valid two-node tank with
  \<open>ua_loss = 1 / 10\<close> (loss factor \<open>1 / 10\<close>), uniform at 20, charged at the bottom with
  \<open>m_flow = 1 / 18\<close> and \<open>Tin_charge = 60\<close> against an ambient of \<open>- 80\<close>: the loss takes
  the bottom node to 10, the inlet mix (\<open>\<alpha> = 1 / 10\<close>) brings it back to 15 only, so the
  bottom series is \<open>[20, 15]\<close>. Second, in binary64 without loss and conduction: a tank
  uniform at \<open>1 - 2 ^ - 53\<close>, the binary64 number next below the inlet temperature 1, with
  \<open>m_flow = 1 / 16\<close>: one step takes the bottom node down to \<open>1 - 2 ^ - 52\<close>.
\<close>

theorem charging_front_counterexample:
  "fst (validate (unit_tank 2 1 (1 / 10) 0 0 (- 1))) = None
   \<and> charge_inlet (unit_tank 2 1 (1 / 10) 0 0 (- 1)) = 0
   \<and> loss_factor (unit_tank 2 1 (1 / 10) 0 0 (- 1)) = 1 / 10
   \<and> map_sum id T_bot
        (simulate_stratified_tank (unit_tank 2 1 (1 / 10) 0 0 (- 1)) [60] [1 / 18] [- 80] [20, 20])
       = Inr [20, 15]
   \<and> fst (validate (unit_tank 2 1 0 0 0 1)) = None
   \<and> charge_inlet (unit_tank 2 1 0 0 0 1) = 0
   \<and> step_rnd b64 (unit_tank 2 1 0 0 0 1) 1 (1 / 16) 0 [1 - 1 / 2 ^ 53, 1 - 1 / 2 ^ 53]
       = [1 - 1 / 2 ^ 52, 1 - 1 / 2 ^ 53]"
proof -
  have x: "map_sum id T_bot
        (simulate_stratified_tank (unit_tank 2 1 (1 / 10) 0 0 (- 1)) [60] [1 / 18] [- 80] [20, 20])
       = Inr [20, 15]"
    by (simp add: simulate_stratified_tank_def run_defs)
  have r: "step_rnd b64 (unit_tank 2 1 0 0 0 1) 1 (1 / 16) 0 [1 - 1 / 2 ^ 53, 1 - 1 / 2 ^ 53]
       = [1 - 1 / 2 ^ 52, 1 - 1 / 2 ^ 53]"
    by (simp add: step_rnd_eval)
  show ?thesis
    unfolding x r by (simp add: unit_tank_ok unit_tank_fields sample_factors)
qed

text \<open>
  Each further hypothesis of the amended statement is needed, in exact arithmetic: an
  ambient above the inlet temperature, an ambient that falls from one step to the next, a
  loss factor above 1 and a conduction factor above \<open>1 / 2\<close> each break the property.
\<close>

lemma charging_front_warm_ambient_example:
  "loss_factor (unit_tank 2 1 1 0 0 (- 1)) \<le> 1
   \<and> map_sum id T_bot
        (simulate_stratified_tank (unit_tank 2 1 1 0 0 (- 1)) [60] [1 / 2] [100] [20, 20])
       = Inr [20, 80]"
  by (simp add: loss_factor_def cond_factor_def simulate_stratified_tank_def run_defs)

lemma charging_front_falling_ambient_example:
  "loss_factor (unit_tank 2 2 1 0 0 (- 1)) \<le> 1
   \<and> map_sum id T_bot
        (simulate_stratified_tank (unit_tank 2 2 1 0 0 (- 1)) [60, 60] [1 / 2, 1 / 2] [60, 20] [20, 20])
       = Inr [20, 60, 40]"
  by (simp add: loss_factor_def cond_factor_def simulate_stratified_tank_def run_defs numeral_2_eq_2)

lemma charging_front_unstable_loss_example:
  "loss_factor (unit_tank 2 1 2 0 0 (- 1)) = 2
   \<and> map_sum id T_bot
        (simulate_stratified_tank (unit_tank 2 1 2 0 0 (- 1)) [60] [1 / 2] [60] [20, 20])
       = Inr [20, 80]"
  by (simp add: loss_factor_def cond_factor_def simulate_stratified_tank_def run_defs)

lemma charging_front_unstable_conduction_example:
  "cond_factor (unit_tank 2 2 0 (3 / 4) 0 (- 1)) = 3
   \<and> map_sum id T_bot
     (simulate_stratified_tank (unit_tank 2 2 0 (3 / 4) 0 (- 1)) [60, 60] [1 / 4, 1 / 4] [0, 0] [20, 20])
   = Inr [20, 100 / 3, 260 / 9]"
  by (simp add: loss_factor_def cond_factor_def simulate_stratified_tank_def run_defs numeral_2_eq_2)

text \<open>
  C7, as amended: in exact real arithmetic, for every validated configuration whose loss
  factor \<open>ua_node * dt / (mass_node * cp)\<close> is at most 1 and whose conduction factor
  \<open>G_cond * dt / (mass_node * cp)\<close> is at most \<open>1 / 2\<close>, with \<open>charge_inlet = 0\<close>, a uniform
  initial profile at \<open>Tc\<close>, a constant mass flow \<open>m > 0\<close>, a constant inlet temperature
  \<open>Th > Tc\<close> and, when \<open>ua_loss > 0\<close>, an ambient series that stays between \<open>Tc\<close> and
  \<open>Th\<close> and never falls from one step to the next, the run succeeds, the bottom series is
  non-decreasing in \<open>t\<close> and never exceeds \<open>Th\<close>. With \<open>ua_loss \<le> 0\<close> the ambient
  series is arbitrary.
\<close>

theorem charging_front_monotone:
  assumes "fst (validate c) = None"
    and "loss_factor c \<le> 1" and "cond_factor c \<le> 1 / 2"
    and "charge_inlet c = 0"
    and "T0 = replicate (nat (n_nodes c)) Tc"
    and "mf = replicate (nat (n_steps c)) m" and "0 < m"
    and "Tin = replicate (nat (n_steps c)) Th" and "Tc < Th"
    and "length Ta = nat (n_steps c)"
    and "0 < ua_loss c \<longrightarrow>
           (\<forall>t < nat (n_steps c). Tc \<le> Ta ! t \<and> Ta ! t \<le> Th)
         \<and> (\<forall>t. Suc t < nat (n_steps c) \<longrightarrow> Ta ! t \<le> Ta ! Suc t)"
  shows "\<exists>out. simulate_stratified_tank c Tin mf Ta T0 = Inr out
     \<and> (\<forall>t < nat (n_steps c). T_bot out ! t \<le> T_bot out ! (t + 1))
     \<and> (\<forall>t \<le> nat (n_steps c). T_bot out ! t \<le> Th)"
proof -
  have ok: "\<not> config_bad c" using assms(1) by (simp add: validate_ok)
  let ?c = "snd (validate c)"
  let ?T = "fst (time_march ?c Tin mf Ta T0)"
  note rc = run_config[OF ok]
  have nn: "2 \<le> n_nodes c" "1 \<le> n_steps c" using validated_bounds[OF ok] by simp_all
  have lens: "lens_ok c Tin mf Ta T0" using assms(5,6,8,10) nn by (simp add: lens_ok_def)
  have st: "loss_factor ?c \<le> 1" "cond_factor ?c \<le> 1 / 2"
    using assms(2,3) by (simp_all add: loss_factor_def cond_factor_def rc)
  have T0: "T0 = replicate (nat (n_nodes ?c)) Tc" using assms(5) by (simp add: rc)
  have th: "Tc \<le> Th" using assms(9) by simp
  have mfk: "\<forall>t < nat (n_steps c). mf ! t = m" using assms(6) by simp
  have tink: "\<forall>t < nat (n_steps c). Tin ! t = Th" using assms(8) by simp
  have amb: "0 < ua_node ?c \<longrightarrow> (\<forall>t < nat (n_steps c). Tc \<le> Ta ! t \<and> Ta ! t \<le> Th)"
    and inc: "0 < ua_node ?c \<longrightarrow> (\<forall>t. Suc t < nat (n_steps c) \<longrightarrow> Ta ! t \<le> Ta ! Suc t)"
    using assms(11) ok by (simp_all add: rc ua_node_pos_iff)
  have bounded: "all_between Tc Th (row_at ?c Tin mf Ta T0 t)" if "t \<le> nat (n_steps c)" for t
    using charging_rows_bounded[OF rc(1) st T0 assms(7) th mfk tink amb that] .
  have incr: "list_all2 (\<le>) (row_at ?c Tin mf Ta T0 t) (row_at ?c Tin mf Ta T0 (Suc t))"
    if "t < nat (n_steps c)" for t
    using charging_rows_increase[OF rc(1) st T0 assms(7) th mfk tink amb inc that] .
  have lrow: "0 < length (row_at ?c Tin mf Ta T0 t)" for t
    using nn length_row_at[of T0 ?c Tin mf Ta t] by (simp add: assms(5))
  have lenT: "length ?T = nat (n_steps c) + 1"
    using march_result(1)[of 0 ?c Tin mf Ta T0] by (simp add: rc)
  have bot: "map (\<lambda>row. row ! 0) ?T ! t = row_at ?c Tin mf Ta T0 t ! 0" if "t \<le> nat (n_steps c)" for t
    using that lenT march_result(3)[of t ?c Tin mf Ta T0] by (simp add: rc)
  have mono: "map (\<lambda>row. row ! 0) ?T ! t \<le> map (\<lambda>row. row ! 0) ?T ! (t + 1)"
    if "t < nat (n_steps c)" for t
    using that list_all2_nthD[OF incr[OF that] lrow[of t]] bot[of t] bot[of "Suc t"]
    by (simp del: row_at.simps)
  have bound: "map (\<lambda>row. row ! 0) ?T ! t \<le> Th" if "t \<le> nat (n_steps c)" for t
    using all_between_nth[OF bounded[OF that] lrow[of t]] bot[OF that] by simp
  show ?thesis
    using mono bound by (simp add: simulate_ok[OF ok lens])
qed

text \<open>
  Two charging steps of a two-node tank with loss factor \<open>1 / 2\<close>, conduction factor
  \<open>1 / 4\<close> and the ambient rising from 20 to 30.
\<close>

theorem charging_front_monotone_witness:
  "fst (validate (unit_tank 2 2 (1 / 2) (1 / 16) 0 (- 1))) = None
   \<and> loss_factor (unit_tank 2 2 (1 / 2) (1 / 16) 0 (- 1)) \<le> 1
   \<and> cond_factor (unit_tank 2 2 (1 / 2) (1 / 16) 0 (- 1)) \<le> 1 / 2
   \<and> 0 < ua_loss (unit_tank 2 2 (1 / 2) (1 / 16) 0 (- 1))
   \<and> 0 < k_cond (unit_tank 2 2 (1 / 2) (1 / 16) 0 (- 1))
   \<and> [20, 20] = replicate (nat (n_nodes (unit_tank 2 2 (1 / 2) (1 / 16) 0 (- 1)))) (20::real)
   \<and> [1 / 2, 1 / 2] = replicate (nat (n_steps (unit_tank 2 2 (1 / 2) (1 / 16) 0 (- 1)))) (1 / 2 :: real)
   \<and> [60, 60] = replicate (nat (n_steps (unit_tank 2 2 (1 / 2) (1 / 16) 0 (- 1)))) (60::real)
   \<and> (\<exists>out. simulate_stratified_tank (unit_tank 2 2 (1 / 2) (1 / 16) 0 (- 1))
               [60, 60] [1 / 2, 1 / 2] [20, 30] [20, 20] = Inr out
        \<and> T_bot out ! 0 \<le> T_bot out ! 1 \<and> T_bot out ! 1 \<le> T_bot out ! 2 \<and> T_bot out ! 2 \<le> 60)"
proof -
  let ?c = "unit_tank 2 2 (1 / 2) (1 / 16) 0 (- 1)"
  let ?Ta = "[20, 30 :: real]"
  have a: "fst (validate ?c) = None" by (simp add: unit_tank_ok)
  have s: "loss_factor ?c \<le> 1" "cond_factor ?c \<le> 1 / 2" by (simp_all add: sample_factors)
  have b: "charge_inlet ?c = 0" "0 < ua_loss ?c" "0 < k_cond ?c" by (simp_all add: unit_tank_fields)
  have e: "[20, 20] = replicate (nat (n_nodes ?c)) (20::real)"
    "[1 / 2, 1 / 2] = replicate (nat (n_steps ?c)) (1 / 2 :: real)"
    "[60, 60] = replicate (nat (n_steps ?c)) (60::real)"
    "length ?Ta = nat (n_steps ?c)"
    by (simp_all add: unit_tank_fields numeral_2_eq_2)
  have g: "(0::real) < 1 / 2" "(20::real) < 60" by simp_all
  have amb: "0 < ua_loss ?c \<longrightarrow>
           (\<forall>t < nat (n_steps ?c). 20 \<le> ?Ta ! t \<and> ?Ta ! t \<le> 60)
         \<and> (\<forall>t. Suc t < nat (n_steps ?c) \<longrightarrow> ?Ta ! t \<le> ?Ta ! Suc t)"
    by (simp add: unit_tank_fields less_Suc_eq numeral_2_eq_2)
  from charging_front_monotone[OF a s b(1) e(1,2) g(1) e(3) g(2) e(4) amb] obtain out where
    oh: "simulate_stratified_tank ?c [60, 60] [1 / 2, 1 / 2] ?Ta [20, 20] = Inr out
     \<and> (\<forall>t < nat (n_steps ?c). T_bot out ! t \<le> T_bot out ! (t + 1))
     \<and> (\<forall>t \<le> nat (n_steps ?c). T_bot out ! t \<le> 60)" ..
  note m = oh[THEN conjunct2, THEN conjunct1, unfolded unit_tank_fields]
    and u = oh[THEN conjunct2, THEN conjunct2, unfolded unit_tank_fields]
  have "T_bot out ! 0 \<le> T_bot out ! 1 \<and> T_bot out ! 1 \<le> T_bot out ! 2 \<and> T_bot out ! 2 \<le> 60"
    using m[THEN spec, of 0] m[THEN spec, of 1] u[THEN spec, of 2] by (simp add: numeral_2_eq_2)
  then show ?thesis using a s b e oh by simp
qed

section \<open>Discharging through the bottom outlet\<close>

text \<open>
  In the bottom-outlet branch the source mixes node 0 with node 1 before the loop, and the
  loop \<^verbatim>\<open>range(0, n_nodes - 2)\<close> starts at node 0 again. For three or more nodes the
  bottom node is therefore mixed twice with the old value of node 1, and node
  \<open>n_nodes - 2\<close> is never mixed with the top node. The top-outlet branch mixes the outlet
  node once and continues at the next node.
\<close>

lemma sweep_down_node0:
  assumes "1 < length xs"
  shows "fold (\<lambda>i Tn. Tn[i := (1 - f) * Tn ! i + f * Tn ! (i + 1)]) [0 ..< b] xs ! 0
          = (if b = 0 then xs ! 0 else (1 - f) * xs ! 0 + f * xs ! 1)"
proof (induction b)
  case 0
  show ?case by simp
next
  case (Suc b)
  let ?R = "fold (\<lambda>i Tn. Tn[i := (1 - f) * Tn ! i + f * Tn ! (i + 1)]) [0 ..< b] xs"
  have l: "length ?R = length xs" by (rule length_fold_update)
  show ?case
  proof (cases "b = 0")
    case True
    have "0 < length xs" using assms by auto
    then show ?thesis using True by simp
  next
    case False
    then show ?thesis using Suc l by simp
  qed
qed

lemma discharge_bottom_node0:
  assumes len: "int (length Tn) = n_nodes c" and out: "discharge_outlet c = 0" and n3: "3 \<le> n_nodes c"
  shows "discharge c mf Tn ! 0 =
      (1 - min 1 ((\<bar>mf\<bar> * dt c) / mass_node c))
         * ((1 - min 1 ((\<bar>mf\<bar> * dt c) / mass_node c)) * Tn ! 0
            + min 1 ((\<bar>mf\<bar> * dt c) / mass_node c) * Tn ! 1)
      + min 1 ((\<bar>mf\<bar> * dt c) / mass_node c) * Tn ! 1"
proof -
  define frac where "frac = min 1 ((\<bar>mf\<bar> * dt c) / mass_node c)"
  define Tn1 where "Tn1 = Tn[0 := (1 - frac) * Tn ! 0 + frac * Tn ! 1]"
  have n: "3 \<le> length Tn" using len n3 by auto
  have b: "nat (n_nodes c - 2) \<noteq> 0" using n3 by simp
  have "discharge c mf Tn
      = fold (\<lambda>i Tn. Tn[i := (1 - frac) * Tn ! i + frac * Tn ! (i + 1)]) [0 ..< nat (n_nodes c - 2)] Tn1"
    using out n3 unfolding discharge_def Let_def frac_def Tn1_def by simp
  then have "discharge c mf Tn ! 0 = (1 - frac) * Tn1 ! 0 + frac * Tn1 ! 1"
    using sweep_down_node0[of Tn1 frac "nat (n_nodes c - 2)"] b n by (simp add: Tn1_def)
  moreover have "Tn1 ! 0 = (1 - frac) * Tn ! 0 + frac * Tn ! 1" "Tn1 ! 1 = Tn ! 1"
  proof -
    have "0 < length Tn" using n by auto
    then show "Tn1 ! 0 = (1 - frac) * Tn ! 0 + frac * Tn ! 1" by (simp add: Tn1_def)
    show "Tn1 ! 1 = Tn ! 1" by (simp add: Tn1_def)
  qed
  ultimately show ?thesis by (simp add: frac_def)
qed

text \<open>
  Away from node 0 the source and the propagation as the specification words it agree:
  every node \<open>i \<ge> 1\<close> gets the same value from both.
\<close>

lemma sweep_down:
  assumes "b < length xs"
  shows "(\<forall>i < b. fold (\<lambda>i Tn. Tn[i := (1 - f) * Tn ! i + f * Tn ! (i + 1)]) [0 ..< b] xs ! i
              = (1 - f) * xs ! i + f * xs ! (i + 1))
       \<and> (\<forall>j \<ge> b. fold (\<lambda>i Tn. Tn[i := (1 - f) * Tn ! i + f * Tn ! (i + 1)]) [0 ..< b] xs ! j = xs ! j)"
  using assms
proof (induction b)
  case 0
  show ?case by simp
next
  case (Suc b)
  let ?R = "fold (\<lambda>i Tn. Tn[i := (1 - f) * Tn ! i + f * Tn ! (i + 1)]) [0 ..< b] xs"
  have l: "length ?R = length xs" by (rule length_fold_update)
  have IH: "\<And>i. i < b \<Longrightarrow> ?R ! i = (1 - f) * xs ! i + f * xs ! (i + 1)"
    "\<And>j. b \<le> j \<Longrightarrow> ?R ! j = xs ! j"
    using Suc.IH Suc.prems by simp_all
  have unf: "fold (\<lambda>i Tn. Tn[i := (1 - f) * Tn ! i + f * Tn ! (i + 1)]) [0 ..< Suc b] xs
      = ?R[b := (1 - f) * xs ! b + f * xs ! (b + 1)]"
    using IH(2)[of b] IH(2)[of "Suc b"] by simp
  show ?case
    unfolding unf using IH l Suc.prems by (auto simp: nth_list_update less_Suc_eq)
qed

lemma discharge_bottom_other_nodes:
  assumes len: "int (length Tn) = n_nodes c" and out: "discharge_outlet c = 0"
    and n2: "2 \<le> n_nodes c" and i: "1 \<le> i" "i < length Tn"
  shows "discharge c mf Tn ! i = discharge_bottom_spec c mf Tn ! i"
proof -
  define frac where "frac = min 1 ((\<bar>mf\<bar> * dt c) / mass_node c)"
  define Tn1 where "Tn1 = Tn[0 := (1 - frac) * Tn ! 0 + frac * Tn ! 1]"
  let ?b = "nat (n_nodes c - 2)"
  have n: "length Tn = nat (n_nodes c)" using len by auto
  have b: "?b < length Tn" "?b < length Tn1" using n n2 by (simp_all add: Tn1_def)
  have same: "Tn1 ! j = Tn ! j" if "1 \<le> j" for j using that by (simp add: Tn1_def)
  have d: "discharge c mf Tn
      = fold (\<lambda>i Tn. Tn[i := (1 - frac) * Tn ! i + frac * Tn ! (i + 1)]) [0 ..< ?b] Tn1"
    using out n2 unfolding discharge_def Let_def frac_def Tn1_def by simp
  have s: "discharge_bottom_spec c mf Tn
      = fold (\<lambda>i Tn. Tn[i := (1 - frac) * Tn ! i + frac * Tn ! (i + 1)]) [0 ..< ?b] Tn"
    unfolding discharge_bottom_spec_def Let_def frac_def by simp
  show ?thesis
  proof (cases "i < ?b")
    case True
    then show ?thesis
      unfolding d s using sweep_down[OF b(1), of frac] sweep_down[OF b(2), of frac] same[of i] same[of "i + 1"] i
      by simp
  next
    case False
    then show ?thesis
      unfolding d s using sweep_down[OF b(1), of frac] sweep_down[OF b(2), of frac] same[of i] i
      by simp
  qed
qed

text \<open>
  C1 states that a step with \<open>m_flow[t] < 0\<close> and the outlet at node 0 consists of the
  propagation \<open>T[i] \<leftarrow> (1 - frac) * T[i] + frac * T[i + 1]\<close> for \<open>i = 0, ..., n_nodes - 3\<close>
  alone, each node being mixed at most once. The source does something else: on a valid
  four-node tank with \<open>frac = 1 / 2\<close> and the row \<open>[1, 2, 4, 8]\<close> the advection phase and
  the whole run give \<open>[7 / 4, 3, 4, 8]\<close>, node 0 mixed twice, where the propagation of
  C1 gives \<open>[3 / 2, 3, 4, 8]\<close>.
\<close>

theorem discharge_bottom_mixes_twice:
  "fst (validate (unit_tank 4 1 0 0 0 0)) = None
   \<and> advect (unit_tank 4 1 0 0 0 0) (- (1 / 8)) 0 [1, 2, 4, 8] = [7 / 4, 3, 4, 8]
   \<and> discharge_bottom_spec (unit_tank 4 1 0 0 0 0) (- (1 / 8)) [1, 2, 4, 8] = [3 / 2, 3, 4, 8]
   \<and> map_sum id T_hist
        (simulate_stratified_tank (unit_tank 4 1 0 0 0 0) [0] [- (1 / 8)] [0] [1, 2, 4, 8])
       = Inr [[1, 2, 4, 8], [7 / 4, 3, 4, 8]]"
  by (simp add: simulate_stratified_tank_def discharge_bottom_spec_def run_defs numeral_2_eq_2)

end
